theory Spec2Isabelle
  imports Complex_Main "HOL-Library.Multiset"
begin

section \<open>Calendar dates and the JavaScript \<open>Date\<close> runtime\<close>

text \<open>
  The store delivers \<open>start_date\<close> and \<open>end_date\<close> as \<open>YYYY-MM-DD\<close> strings of a date
  column. A calendar date is carried as its day count since 1970-01-01 (proleptic
  Gregorian), a \<open>Date\<close> object as the value of \<open>getTime()\<close>: milliseconds since the epoch.
  The day arithmetic is ECMAScript's (\<open>DayFromYear\<close>, \<open>InLeapYear\<close>, \<open>MakeDay\<close>).
\<close>

type_synonym date = int
type_synonym instant = int

definition msPerDay :: int where
  "msPerDay = 1000 * 60 * 60 * 24"

definition DayFromYear :: "int \<Rightarrow> int" where
  "DayFromYear y =
     365 * (y - 1970) + (y - 1969) div 4 - (y - 1901) div 100 + (y - 1601) div 400"

definition InLeapYear :: "int \<Rightarrow> bool" where
  "InLeapYear y = ((y mod 4 = 0 \<and> y mod 100 \<noteq> 0) \<or> y mod 400 = 0)"

text \<open>Days of the year before month index \<open>mn\<close> (0 is January).\<close>

definition monthOffset :: "bool \<Rightarrow> int \<Rightarrow> int" where
  "monthOffset leap mn =
     (let l = (if leap then 1 else 0) in
      if mn = 0 then 0
      else if mn = 1 then 31
      else if mn = 2 then 59 + l
      else if mn = 3 then 90 + l
      else if mn = 4 then 120 + l
      else if mn = 5 then 151 + l
      else if mn = 6 then 181 + l
      else if mn = 7 then 212 + l
      else if mn = 8 then 243 + l
      else if mn = 9 then 273 + l
      else if mn = 10 then 304 + l
      else 334 + l)"

text \<open>\<open>MakeDay(year, month, date)\<close>: a month index outside 0..11 carries into the year.\<close>

definition MakeDay :: "int \<Rightarrow> int \<Rightarrow> int \<Rightarrow> date" where
  "MakeDay y m d =
     (let ym = y + m div 12; mn = m mod 12
      in DayFromYear ym + monthOffset (InLeapYear ym) mn + d - 1)"

text \<open>The date written \<open>YYYY-MM-DD\<close>, month 1..12.\<close>

definition civil :: "int \<Rightarrow> int \<Rightarrow> int \<Rightarrow> date" where
  "civil y m d = MakeDay y (m - 1) d"

text \<open>
  Local time. A zone gives, for each calendar date, the offset from UTC in milliseconds
  (positive east of Greenwich) in force at the local midnight that starts the date; it
  varies with the date where daylight saving time is observed.
\<close>

type_synonym zone = "date \<Rightarrow> int"

definition localMidnight :: "zone \<Rightarrow> date \<Rightarrow> instant" where
  "localMidnight tz d = d * msPerDay - tz d"

text \<open>\<open>new Date(`${s}T00:00:00`)\<close>: a date-time string without offset is local time.\<close>

definition parseLocal :: "zone \<Rightarrow> date \<Rightarrow> instant" where
  "parseLocal tz s = localMidnight tz s"

text \<open>\<open>new Date(year, monthIndex, day)\<close>: local time; a year 0..99 means 1900 + year.\<close>

definition newDate :: "zone \<Rightarrow> int \<Rightarrow> int \<Rightarrow> int \<Rightarrow> instant" where
  "newDate tz y mi d =
     localMidnight tz (MakeDay (if 0 \<le> y \<and> y \<le> 99 then 1900 + y else y) mi d)"

text \<open>
  \<open>d.toISOString().slice(0, 10)\<close>: the UTC calendar date of an instant (for years
  0..9999, where the string starts with the four-digit year).
\<close>

definition toISODate :: "instant \<Rightarrow> date" where
  "toISODate t = t div msPerDay"

text \<open>
  \<open>Math.round(n / d)\<close> for a positive divisor: the nearest integer, a tie going up.
  The quotient of the source is a double; for integer milliseconds in the range of
  \<open>Date\<close> it is rounded to the same integer as the exact quotient.
\<close>

definition mathRoundDiv :: "int \<Rightarrow> int \<Rightarrow> int" where
  "mathRoundDiv n d = (2 * n + d) div (2 * d)"

text \<open>
  The zones of the theorems below: the offsets at any two local midnights differ by less
  than twelve hours (a daylight-saving shift is one hour).
\<close>

definition zone_regular :: "zone \<Rightarrow> bool" where
  "zone_regular tz = (\<forall>a b. \<bar>tz a - tz b\<bar> < 43200000)"

definition utc :: zone where
  "utc = (\<lambda>d. 0)"

text \<open>
  A zone one hour east of UTC in winter and two in summer, the change falling on the
  days 2026-03-29 and 2026-10-25.
\<close>

definition cet2026 :: zone where
  "cet2026 = (\<lambda>d. if civil 2026 3 29 < d \<and> d \<le> civil 2026 10 25 then 7200000 else 3600000)"

section \<open>The overlap of a booking with a window\<close>

text \<open>\<open>countOverlapDays\<close> of the usage route.\<close>

definition countOverlapDays :: "zone \<Rightarrow> date \<Rightarrow> date \<Rightarrow> instant \<Rightarrow> instant \<Rightarrow> int" where
  "countOverlapDays tz bookingStartStr bookingEndStr winStart winEnd =
     (let bs = parseLocal tz bookingStartStr;
          be = parseLocal tz bookingEndStr;
          start = (if bs < winStart then winStart else bs);
          end = (if be > winEnd then winEnd else be);
          ms = end - start
      in if ms \<le> 0 then 0 else mathRoundDiv ms (1000 * 60 * 60 * 24))"

section \<open>The usage route\<close>

text \<open>
  \<open>a % b\<close> of JavaScript: the remainder has the sign of the dividend.
\<close>

definition jsRem :: "int \<Rightarrow> int \<Rightarrow> int" where
  "jsRem a b = sgn a * (\<bar>a\<bar> mod \<bar>b\<bar>)"

text \<open>\<open>String(n)\<close> for an integer, and \<open>s.padStart(2, "0")\<close>.\<close>

fun showNat :: "nat \<Rightarrow> string" where
  "showNat n =
     (if n < 10 then [''0123456789'' ! n]
      else showNat (n div 10) @ [''0123456789'' ! (n mod 10)])"

declare showNat.simps [simp del]

definition showInt :: "int \<Rightarrow> string" where
  "showInt i = (if i < 0 then CHR ''-'' # showNat (nat (- i)) else showNat (nat i))"

definition padStart2 :: "string \<Rightarrow> string" where
  "padStart2 s = replicate (2 - length s) CHR ''0'' @ s"

text \<open>
  What \<open>now.getFullYear()\<close> and \<open>now.getMonth()\<close> return for the \<open>new Date()\<close> of an
  invocation: the local calendar year and the month index 0..11.
\<close>

record localNow =
  getFullYear :: int
  getMonth :: int

text \<open>The value of \<open>getPreviousMonthWindow\<close>.\<close>

record monthWindow =
  monthStart :: instant
  monthEnd :: instant
  totalDays_win :: int
  label :: string

definition getPreviousMonthWindow :: "zone \<Rightarrow> localNow \<Rightarrow> monthWindow" where
  "getPreviousMonthWindow tz now =
     (let prevMonth = getMonth now - 1;
          year = (if prevMonth < 0 then getFullYear now - 1 else getFullYear now);
          monthIndex = jsRem (prevMonth + 12) 12;
          mStart = newDate tz year monthIndex 1;
          mEnd = newDate tz year (monthIndex + 1) 1;
          totalDays = mathRoundDiv (mEnd - mStart) (1000 * 60 * 60 * 24);
          lbl = showInt year @ ''-'' @ padStart2 (showInt (monthIndex + 1))
      in \<lparr>monthStart = mStart, monthEnd = mEnd, totalDays_win = totalDays, label = lbl\<rparr>)"

text \<open>Rows of the tables \<open>houses\<close> (columns \<open>id\<close>, \<open>name\<close>) and \<open>bookings\<close>.\<close>

record house =
  id_house :: int
  name :: string

record booking =
  house_id :: int
  start_date :: date
  end_date :: date
  status :: string

text \<open>The \<open>{ data, error }\<close> of a query.\<close>

record 'a fetched =
  data :: "'a list option"
  error :: "string option"

text \<open>
  The store at the time of a request: what the query on \<open>houses\<close> answers, the content
  of \<open>bookings\<close>, and the message of the failure of the query on it, if it fails.
\<close>

record store =
  houses_response :: "house fetched"
  bookings_table :: "booking list"
  bookings_failure :: "string option"

text \<open>
  \<open>from("bookings").select(...).eq("status", "active").lt("start_date", monthEndStr)
  .gt("end_date", monthStartStr)\<close>: the filters are applied by the store.
\<close>

definition select_bookings :: "store \<Rightarrow> date \<Rightarrow> date \<Rightarrow> booking fetched" where
  "select_bookings db monthStartStr monthEndStr =
     (case bookings_failure db of
        Some msg \<Rightarrow> \<lparr>data = None, error = Some msg\<rparr>
      | None \<Rightarrow>
          \<lparr>data = Some (filter (\<lambda>b. status b = ''active''
                                   \<and> start_date b < monthEndStr
                                   \<and> end_date b > monthStartStr) (bookings_table db)),
           error = None\<rparr>)"

text \<open>\<open>usageByHouse.get(k) ?? 0\<close>.\<close>

definition getOrZero :: "(int \<rightharpoonup> int) \<Rightarrow> int \<Rightarrow> int" where
  "getOrZero usageByHouse k = (case usageByHouse k of None \<Rightarrow> 0 | Some v \<Rightarrow> v)"

text \<open>The body of the \<open>forEach\<close> over the fetched rows, and the loop.\<close>

definition accumulate :: "zone \<Rightarrow> instant \<Rightarrow> instant \<Rightarrow> booking \<Rightarrow> (int \<rightharpoonup> int) \<Rightarrow> (int \<rightharpoonup> int)" where
  "accumulate tz mStart mEnd row usageByHouse =
     (let days = countOverlapDays tz (start_date row) (end_date row) mStart mEnd
      in if days \<le> 0 then usageByHouse
         else (let current = getOrZero usageByHouse (house_id row)
               in usageByHouse(house_id row \<mapsto> current + days)))"

definition aggregate :: "zone \<Rightarrow> instant \<Rightarrow> instant \<Rightarrow> booking list \<Rightarrow> (int \<rightharpoonup> int)" where
  "aggregate tz mStart mEnd bookingRows = fold (accumulate tz mStart mEnd) bookingRows Map.empty"

text \<open>
  A row of the response. \<open>usageRate\<close> is a double in the source, the quotient of two
  integers; the model keeps the exact quotient.
\<close>

record usageRow =
  houseId :: int
  houseName :: string
  month :: string
  daysWithBookings :: int
  totalDays :: int
  usageRate :: rat

definition buildRows :: "house list \<Rightarrow> (int \<rightharpoonup> int) \<Rightarrow> int \<Rightarrow> string \<Rightarrow> usageRow list" where
  "buildRows houses usageByHouse nDays lbl =
     map (\<lambda>h.
       (let days = getOrZero usageByHouse (id_house h);
            rate = (if nDays > 0 then of_int days / of_int nDays else 0)
        in \<lparr>houseId = id_house h, houseName = name h, month = lbl,
            daysWithBookings = days, totalDays = nDays, usageRate = rate\<rparr>)) houses"

text \<open>The JSON answers of the handler: status 200 with the rows, or status 500.\<close>

datatype response =
  Json200 (body_month: string) (body_totalDays: int) (body_rows: "usageRow list")
| Json500 string

text \<open>
  \<open>GET\<close>. Nothing between \<open>try\<close> and \<open>catch\<close> throws on these inputs, so the
  handler of the \<open>catch\<close> is not a branch of the model.
\<close>

definition GET :: "zone \<Rightarrow> localNow \<Rightarrow> store \<Rightarrow> response" where
  "GET tz now db =
     (let w = getPreviousMonthWindow tz now;
          houseQ = houses_response db
      in case error houseQ of
           Some msg \<Rightarrow> Json500 msg
         | None \<Rightarrow>
            (let houses = (case data houseQ of None \<Rightarrow> [] | Some hs \<Rightarrow> hs);
                 monthStartStr = toISODate (monthStart w);
                 monthEndStr = toISODate (monthEnd w);
                 bookingQ = select_bookings db monthStartStr monthEndStr
             in case error bookingQ of
                  Some msg \<Rightarrow> Json500 msg
                | None \<Rightarrow>
                   (let bookingRows = (case data bookingQ of None \<Rightarrow> [] | Some bs \<Rightarrow> bs);
                        usageByHouse = aggregate tz (monthStart w) (monthEnd w) bookingRows
                    in Json200 (label w) (totalDays_win w)
                         (buildRows houses usageByHouse (totalDays_win w) (label w)))))"

section \<open>Creating a booking\<close>

text \<open>
  \<open>confirmCreateBooking\<close> of the calendar page. It reads the state of the form; the
  model takes that state, the signed-in user and the answer of the store to the insert,
  and returns what the function did, with the table of bookings after it. The flags
  \<open>saving\<close> and \<open>modalError\<close> it sets on the way, the toast, and the notification mail sent
  after a creation are not part of the result.
\<close>

text \<open>The row handed to \<open>insert\<close>: the columns of a booking and three more.\<close>

record newBooking = booking +
  created_by :: string
  guest_count :: rat
  note_col :: "string option"

text \<open>
  The state read: \<open>pendingStart\<close> and \<open>pendingEnd\<close> are the \<open>YYYY-MM-DD\<close> strings of a
  selection in the month grid, or null; \<open>guestCount\<close> is \<open>Number(guestCountInput)\<close>, with
  \<open>None\<close> where \<open>Number.isFinite\<close> is false.
\<close>

record createForm =
  selectedHouseId :: "int option"
  pendingStart :: "date option"
  pendingEnd :: "date option"
  saving :: bool
  guestCount :: "rat option"
  noteInput :: string

record session =
  user :: "string option"
  insertError :: "string option"

text \<open>
  The three messages of \<open>setModalError\<close>: on the guest count, \<open>Invalid date range.\<close> and
  \<open>Max stay is 7 nights.\<close>
\<close>

datatype modalError = GuestCountBelowOne | InvalidDateRange | MaxStaySevenNights

datatype outcome =
  Returned
| RedirectedToLogin
| ModalError modalError
| ToastError string
| Created newBooking

text \<open>\<open>s.trim()\<close>, on the ASCII white space and line terminators.\<close>

definition isWhiteSpace :: "char \<Rightarrow> bool" where
  "isWhiteSpace c = (c \<in> {CHR '' '', CHR 0x09, CHR 0x0A, CHR 0x0B, CHR 0x0C, CHR 0x0D})"

definition jsTrim :: "string \<Rightarrow> string" where
  "jsTrim s = rev (dropWhile isWhiteSpace (rev (dropWhile isWhiteSpace s)))"

definition confirmCreateBooking ::
    "zone \<Rightarrow> session \<Rightarrow> createForm \<Rightarrow> newBooking list \<Rightarrow> outcome \<times> newBooking list" where
  "confirmCreateBooking tz env st bookings =
     (case (selectedHouseId st, pendingStart st, pendingEnd st) of
        (Some hid, Some ps, Some pe) \<Rightarrow>
          if hid = 0 then (Returned, bookings)
          else if saving st then (Returned, bookings)
          else
            (case user env of
               None \<Rightarrow> (RedirectedToLogin, bookings)
             | Some uid \<Rightarrow>
                (case guestCount st of
                   None \<Rightarrow> (ModalError GuestCountBelowOne, bookings)
                 | Some g \<Rightarrow>
                    if g < 1 then (ModalError GuestCountBelowOne, bookings)
                    else
                      (let start = parseLocal tz ps;
                           end = parseLocal tz pe;
                           nights = mathRoundDiv (end - start) (1000 * 60 * 60 * 24)
                       in if nights \<le> 0 then (ModalError InvalidDateRange, bookings)
                          else if nights > 7 then (ModalError MaxStaySevenNights, bookings)
                          else
                            (let nt = (if jsTrim (noteInput st) \<noteq> []
                                       then Some (jsTrim (noteInput st)) else None);
                                 row = \<lparr>house_id = hid, start_date = ps, end_date = pe,
                                        status = ''active'', created_by = uid,
                                        guest_count = g, note_col = nt\<rparr>
                             in case insertError env of
                                  Some msg \<Rightarrow> (ToastError msg, bookings)
                                | None \<Rightarrow> (Created row, bookings @ [row])))))
      | _ \<Rightarrow> (Returned, bookings))"

text \<open>The checks before the one on the dates all pass.\<close>

definition reachesDateCheck :: "session \<Rightarrow> createForm \<Rightarrow> bool" where
  "reachesDateCheck env st =
     ((case selectedHouseId st of None \<Rightarrow> False | Some hid \<Rightarrow> hid \<noteq> 0)
      \<and> \<not> saving st
      \<and> user env \<noteq> None
      \<and> (case guestCount st of None \<Rightarrow> False | Some g \<Rightarrow> 1 \<le> g))"

definition signedIn :: session where
  "signedIn = \<lparr>user = Some ''u1'', insertError = None\<rparr>"

definition formFor :: "date \<Rightarrow> date \<Rightarrow> createForm" where
  "formFor s e =
     \<lparr>selectedHouseId = Some 1, pendingStart = Some s, pendingEnd = Some e, saving = False,
      guestCount = Some 2, noteInput = '' see you  ''\<rparr>"

section \<open>Vocabulary of the statements\<close>

text \<open>The length of the month with index \<open>mi\<close> (0 is January) of year \<open>y\<close>.\<close>

definition daysInMonth :: "int \<Rightarrow> int \<Rightarrow> int" where
  "daysInMonth y mi =
     (if mi = 1 then (if InLeapYear y then 29 else 28)
      else if mi = 3 \<or> mi = 5 \<or> mi = 8 \<or> mi = 10 then 30
      else 31)"

text \<open>
  An invocation time: \<open>getMonth()\<close> is a month index, and the clock is not before 1970.
\<close>

definition wallClock :: "localNow \<Rightarrow> bool" where
  "wallClock now = (0 \<le> getMonth now \<and> getMonth now \<le> 11 \<and> 1970 \<le> getFullYear now)"

text \<open>The calendar month before the month of the invocation: its year and index.\<close>

definition prevYear :: "localNow \<Rightarrow> int" where
  "prevYear now = (if getMonth now = 0 then getFullYear now - 1 else getFullYear now)"

definition prevMonthIndex :: "localNow \<Rightarrow> int" where
  "prevMonthIndex now = (if getMonth now = 0 then 11 else getMonth now - 1)"

text \<open>The \<open>houses\<close> and the \<open>bookingRows\<close> of a request, and the days a row counts.\<close>

definition housesOf :: "store \<Rightarrow> house list" where
  "housesOf db = (case data (houses_response db) of None \<Rightarrow> [] | Some hs \<Rightarrow> hs)"

definition fetchedRows :: "zone \<Rightarrow> localNow \<Rightarrow> store \<Rightarrow> booking list" where
  "fetchedRows tz now db =
     (let w = getPreviousMonthWindow tz now
      in case data (select_bookings db (toISODate (monthStart w)) (toISODate (monthEnd w))) of
           None \<Rightarrow> [] | Some bs \<Rightarrow> bs)"

definition rowDays :: "zone \<Rightarrow> instant \<Rightarrow> instant \<Rightarrow> booking \<Rightarrow> int" where
  "rowDays tz mStart mEnd row = countOverlapDays tz (start_date row) (end_date row) mStart mEnd"

text \<open>
  The days the claim on the aggregation counts for a house: the sum, over the bookings
  that are active and whose range meets the window \<open>[ws, we)\<close> of dates, of the days
  they share with it.
\<close>

definition spec_daysWithBookings :: "date \<Rightarrow> date \<Rightarrow> booking list \<Rightarrow> int \<Rightarrow> int" where
  "spec_daysWithBookings ws we bookings h =
     sum_list (map (\<lambda>b. max 0 (min (end_date b) we - max (start_date b) ws))
       (filter (\<lambda>b. house_id b = h \<and> status b = ''active''
                    \<and> start_date b < we \<and> end_date b > ws) bookings))"

section \<open>Example inputs\<close>

definition feb2026 :: localNow where
  "feb2026 = \<lparr>getFullYear = 2026, getMonth = 1\<rparr>"

definition jan2027 :: localNow where
  "jan2027 = \<lparr>getFullYear = 2027, getMonth = 0\<rparr>"

definition mkBooking :: "int \<Rightarrow> date \<Rightarrow> date \<Rightarrow> string \<Rightarrow> booking" where
  "mkBooking h s e st = \<lparr>house_id = h, start_date = s, end_date = e, status = st\<rparr>"

definition threeHouses :: "house list" where
  "threeHouses = [\<lparr>id_house = 1, name = ''Bay Ave''\<rparr>, \<lparr>id_house = 2, name = ''Bear Ln''\<rparr>,
     \<lparr>id_house = 3, name = ''Cabin''\<rparr>]"

text \<open>
  The scenario of the specification (bookings A to D), with a booking for a house that
  is not in \<open>houses\<close>.
\<close>

definition scenarioStore :: store where
  "scenarioStore =
     \<lparr>houses_response = \<lparr>data = Some threeHouses, error = None\<rparr>,
      bookings_table =
        [mkBooking 1 (civil 2026 1 10) (civil 2026 1 15) ''active'',
         mkBooking 1 (civil 2026 1 14) (civil 2026 1 20) ''active'',
         mkBooking 2 (civil 2025 12 28) (civil 2026 1 3) ''active'',
         mkBooking 1 (civil 2026 1 5) (civil 2026 1 8) ''cancelled'',
         mkBooking 9 (civil 2026 1 5) (civil 2026 1 8) ''active''],
      bookings_failure = None\<rparr>"

text \<open>One house and one active booking that starts on the last day of January 2026.\<close>

definition lastDayStore :: store where
  "lastDayStore =
     \<lparr>houses_response = \<lparr>data = Some [\<lparr>id_house = 1, name = ''Bay Ave''\<rparr>], error = None\<rparr>,
      bookings_table = [mkBooking 1 (civil 2026 1 31) (civil 2026 2 2) ''active''],
      bookings_failure = None\<rparr>"

text \<open>One house with five active bookings of the same seven nights.\<close>

definition overlapStore :: store where
  "overlapStore =
     \<lparr>houses_response = \<lparr>data = Some [\<lparr>id_house = 1, name = ''Bay Ave''\<rparr>], error = None\<rparr>,
      bookings_table = replicate 5 (mkBooking 1 (civil 2026 1 10) (civil 2026 1 17) ''active''),
      bookings_failure = None\<rparr>"

text \<open>One house whose only booking lies in November 2025.\<close>

definition novemberStore :: store where
  "novemberStore =
     \<lparr>houses_response = \<lparr>data = Some [\<lparr>id_house = 1, name = ''Bay Ave''\<rparr>], error = None\<rparr>,
      bookings_table = [mkBooking 1 (civil 2025 11 10) (civil 2025 11 15) ''active''],
      bookings_failure = None\<rparr>"

section \<open>Properties of the runtime model\<close>

lemma mathRoundDiv_days:
  assumes "- 43200000 \<le> r" "r < 43200000"
  shows "mathRoundDiv (k * 86400000 + r) 86400000 = k"
proof -
  have "mathRoundDiv (k * 86400000 + r) 86400000
      = ((2 * r + 86400000) + k * 172800000) div 172800000"
    by (simp add: mathRoundDiv_def algebra_simps)
  also have "\<dots> = k + (2 * r + 86400000) div 172800000"
    by simp
  also have "(2 * r + 86400000) div 172800000 = 0"
    using assms by (intro div_pos_pos_trivial) simp_all
  finally show ?thesis by simp
qed

lemma mathRoundDiv_nonneg: "0 \<le> n \<Longrightarrow> 0 \<le> mathRoundDiv n 86400000"
  by (simp add: mathRoundDiv_def pos_imp_zdiv_nonneg_iff)

lemma days_scale_pos: "1 \<le> k \<Longrightarrow> 86400000 \<le> k * 86400000" for k :: int
  by simp

lemma days_scale_neg: "k \<le> - 1 \<Longrightarrow> k * 86400000 \<le> - 86400000" for k :: int
  by simp

lemma zone_regularD: "zone_regular tz \<Longrightarrow> \<bar>tz a - tz b\<bar> < 43200000"
  by (simp add: zone_regular_def)

lemma localMidnight_diff:
  "localMidnight tz a - localMidnight tz b = (a - b) * 86400000 + (tz b - tz a)"
  by (simp add: localMidnight_def msPerDay_def algebra_simps)

lemma localMidnight_less_iff:
  assumes "zone_regular tz"
  shows "localMidnight tz a < localMidnight tz b \<longleftrightarrow> a < b"
proof -
  have d: "localMidnight tz b - localMidnight tz a = (b - a) * 86400000 + (tz a - tz b)"
    by (rule localMidnight_diff)
  have r: "\<bar>tz a - tz b\<bar> < 43200000"
    using assms by (rule zone_regularD)
  show ?thesis
  proof
    assume "localMidnight tz a < localMidnight tz b"
    with d have pos: "0 < (b - a) * 86400000 + (tz a - tz b)" by simp
    then have "a \<noteq> b" by auto
    moreover from pos r have "0 < (b - a) * 86400000 + 43200000" by linarith
    then have "a \<le> b" using days_scale_neg [of "b - a"] by linarith
    ultimately show "a < b" by simp
  next
    assume "a < b"
    then have "86400000 \<le> (b - a) * 86400000" by (intro days_scale_pos) simp
    with r have "0 < (b - a) * 86400000 + (tz a - tz b)" by linarith
    with d show "localMidnight tz a < localMidnight tz b" by simp
  qed
qed

lemma localMidnight_le_iff:
  "zone_regular tz \<Longrightarrow> localMidnight tz a \<le> localMidnight tz b \<longleftrightarrow> a \<le> b"
  using localMidnight_less_iff [of tz b a] by auto

text \<open>The days between two local midnights, as the source counts them.\<close>

lemma round_localMidnight_diff:
  assumes "zone_regular tz"
  shows "mathRoundDiv (localMidnight tz b - localMidnight tz a) 86400000 = b - a"
proof -
  have r: "\<bar>tz a - tz b\<bar> < 43200000"
    using assms by (rule zone_regularD)
  have "mathRoundDiv ((b - a) * 86400000 + (tz a - tz b)) 86400000 = b - a"
    using r by (intro mathRoundDiv_days) linarith+
  then show ?thesis by (simp only: localMidnight_diff)
qed

lemma zone_regular_utc: "zone_regular utc"
  by (simp add: zone_regular_def utc_def)

lemma zone_regular_cet2026: "zone_regular cet2026"
  by (simp add: zone_regular_def cet2026_def)

lemma diff_or_zero: "(if x \<le> y then 0 else x - y) = max 0 (x - y)" for x y :: int
  by (simp add: max_def)

text \<open>The overlap in days of two half-open ranges of dates, written out.\<close>

lemma countOverlapDays_midnights:
  assumes "zone_regular tz"
  shows "countOverlapDays tz s e (localMidnight tz ws) (localMidnight tz we)
           = max 0 (min e we - max s ws)"
proof -
  let ?L = "localMidnight tz"
  have start: "(if ?L s < ?L ws then ?L ws else ?L s) = ?L (max s ws)"
    using localMidnight_less_iff [OF assms, of s ws] by (simp add: max_def)
  have "end": "(if ?L e > ?L we then ?L we else ?L e) = ?L (min e we)"
    using localMidnight_less_iff [OF assms, of we e] by (simp add: min_def)
  have le: "?L (min e we) - ?L (max s ws) \<le> 0 \<longleftrightarrow> min e we \<le> max s ws"
    using localMidnight_le_iff [OF assms, of "min e we" "max s ws"] by simp
  have rd: "mathRoundDiv (?L (min e we) - ?L (max s ws)) 86400000 = min e we - max s ws"
    by (rule round_localMidnight_diff [OF assms])
  have "countOverlapDays tz s e (?L ws) (?L we)
      = (if ?L (min e we) - ?L (max s ws) \<le> 0 then 0
         else mathRoundDiv (?L (min e we) - ?L (max s ws)) 86400000)"
    unfolding countOverlapDays_def parseLocal_def Let_def start "end" by simp
  also have "\<dots> = max 0 (min e we - max s ws)"
    unfolding le rd by (rule diff_or_zero)
  finally show ?thesis .
qed

lemma countOverlapDays_nonneg: "0 \<le> countOverlapDays tz s e winStart winEnd"
  unfolding countOverlapDays_def Let_def
  using mathRoundDiv_nonneg by simp

lemma countOverlapDays_inverted:
  assumes "zone_regular tz" "e \<le> s"
  shows "countOverlapDays tz s e winStart winEnd = 0"
proof -
  have "localMidnight tz e \<le> localMidnight tz s"
    using assms by (simp add: localMidnight_le_iff)
  then show ?thesis
    by (simp add: countOverlapDays_def parseLocal_def Let_def)
qed

section \<open>Claims about the overlap\<close>

text \<open>
  C1. In a regular zone, for a booking \<open>[s, e)\<close> and a window \<open>[ws, we)\<close> of dates
  (a window being the local midnights of its dates), \<open>countOverlapDays\<close> returns
  \<open>max 0 (min e we - max s ws)\<close>, in days. The booking 2026-01-30 to 2026-02-02 against the
  window of January 2026 yields 2.
\<close>

theorem countOverlapDays_clamp_formula:
  assumes "zone_regular tz"
  shows "countOverlapDays tz s e (localMidnight tz ws) (localMidnight tz we)
           = max 0 (min e we - max s ws)
       \<and> countOverlapDays tz (civil 2026 1 30) (civil 2026 2 2)
           (newDate tz 2026 0 1) (newDate tz 2026 1 1) = 2"
proof
  show "countOverlapDays tz s e (localMidnight tz ws) (localMidnight tz we)
          = max 0 (min e we - max s ws)"
    by (rule countOverlapDays_midnights [OF assms])
next
  have "countOverlapDays tz (civil 2026 1 30) (civil 2026 2 2)
          (localMidnight tz (MakeDay 2026 0 1)) (localMidnight tz (MakeDay 2026 1 1))
        = max 0 (min (civil 2026 2 2) (MakeDay 2026 1 1) - max (civil 2026 1 30) (MakeDay 2026 0 1))"
    by (rule countOverlapDays_midnights [OF assms])
  also have "\<dots> = 2"
    by (simp add: civil_def MakeDay_def DayFromYear_def InLeapYear_def monthOffset_def)
  finally show "countOverlapDays tz (civil 2026 1 30) (civil 2026 2 2)
      (newDate tz 2026 0 1) (newDate tz 2026 1 1) = 2"
    by (simp add: newDate_def)
qed

text \<open>
  A booking 2026-03-27 to 2026-04-02 against March 2026, in a zone whose clocks go
  forward on 2026-03-29: five days.
\<close>

theorem countOverlapDays_clamp_formula_witness:
  "zone_regular cet2026
   \<and> countOverlapDays cet2026 (civil 2026 3 27) (civil 2026 4 2)
       (localMidnight cet2026 (civil 2026 3 1)) (localMidnight cet2026 (civil 2026 4 1)) = 5"
  using countOverlapDays_clamp_formula [OF zone_regular_cet2026,
      of "civil 2026 3 27" "civil 2026 4 2" "civil 2026 3 1" "civil 2026 4 1"]
    zone_regular_cet2026
  by (simp add: civil_def MakeDay_def DayFromYear_def InLeapYear_def monthOffset_def)

text \<open>
  C4. \<open>countOverlapDays\<close> is a total function whose result is never negative; in a
  regular zone it is 0 when the booking's range and the window share no date, and 0 for
  a booking with \<open>end_date \<le> start_date\<close>, whatever the window.
\<close>

theorem countOverlapDays_nonneg_disjoint_malformed:
  "0 \<le> countOverlapDays tz s e winStart winEnd
   \<and> (zone_regular tz \<longrightarrow> {s..<e} \<inter> {ws..<we} = {} \<longrightarrow>
        countOverlapDays tz s e (localMidnight tz ws) (localMidnight tz we) = 0)
   \<and> (zone_regular tz \<longrightarrow> e \<le> s \<longrightarrow> countOverlapDays tz s e winStart winEnd = 0)"
proof (intro conjI impI)
  show "0 \<le> countOverlapDays tz s e winStart winEnd"
    by (rule countOverlapDays_nonneg)
next
  assume reg: "zone_regular tz" and disj: "{s..<e} \<inter> {ws..<we} = {}"
  from disj have "{max s ws..<min e we} = {}"
    by (simp only: Int_atLeastLessThan)
  then have "min e we \<le> max s ws"
    by (simp only: atLeastLessThan_empty_iff not_less)
  then show "countOverlapDays tz s e (localMidnight tz ws) (localMidnight tz we) = 0"
    by (simp add: countOverlapDays_midnights [OF reg])
next
  assume "zone_regular tz" "e \<le> s"
  then show "countOverlapDays tz s e winStart winEnd = 0"
    by (rule countOverlapDays_inverted)
qed

text \<open>
  A booking in December against January (disjoint), and a booking whose end precedes
  its start inside January, in a zone with daylight saving.
\<close>

theorem countOverlapDays_nonneg_disjoint_malformed_witness:
  "zone_regular cet2026
   \<and> {civil 2025 12 20..<civil 2025 12 27} \<inter> {civil 2026 1 1..<civil 2026 2 1} = {}
   \<and> countOverlapDays cet2026 (civil 2025 12 20) (civil 2025 12 27)
        (localMidnight cet2026 (civil 2026 1 1)) (localMidnight cet2026 (civil 2026 2 1)) = 0
   \<and> civil 2026 1 10 \<le> civil 2026 1 15
   \<and> countOverlapDays cet2026 (civil 2026 1 15) (civil 2026 1 10)
        (localMidnight cet2026 (civil 2026 1 1)) (localMidnight cet2026 (civil 2026 2 1)) = 0"
proof -
  have d: "{civil 2025 12 20..<civil 2025 12 27} \<inter> {civil 2026 1 1..<civil 2026 2 1} = {}"
    by (simp add: civil_def MakeDay_def DayFromYear_def InLeapYear_def monthOffset_def)
  have m: "civil 2026 1 10 \<le> civil 2026 1 15"
    by (simp add: civil_def MakeDay_def DayFromYear_def InLeapYear_def monthOffset_def)
  from countOverlapDays_nonneg_disjoint_malformed
      [of cet2026 "civil 2025 12 20" "civil 2025 12 27" 0 0 "civil 2026 1 1" "civil 2026 2 1"]
    zone_regular_cet2026 d
  have 1: "countOverlapDays cet2026 (civil 2025 12 20) (civil 2025 12 27)
        (localMidnight cet2026 (civil 2026 1 1)) (localMidnight cet2026 (civil 2026 2 1)) = 0"
    by blast
  from countOverlapDays_nonneg_disjoint_malformed
      [of cet2026 "civil 2026 1 15" "civil 2026 1 10"
          "localMidnight cet2026 (civil 2026 1 1)" "localMidnight cet2026 (civil 2026 2 1)" 0 0]
    zone_regular_cet2026 m
  have 2: "countOverlapDays cet2026 (civil 2026 1 15) (civil 2026 1 10)
        (localMidnight cet2026 (civil 2026 1 1)) (localMidnight cet2026 (civil 2026 2 1)) = 0"
    by blast
  from zone_regular_cet2026 d 1 m 2 show ?thesis by blast
qed

text \<open>
  C7. In a regular zone, a booking \<open>[s, e)\<close> with \<open>s \<le> e\<close> that lies inside the window
  (\<open>ws \<le> s\<close> and \<open>e \<le> we\<close>) counts its full length \<open>e - s\<close>.
\<close>

theorem countOverlapDays_contained:
  assumes "zone_regular tz" "s \<le> e" "ws \<le> s" "e \<le> we"
  shows "countOverlapDays tz s e (localMidnight tz ws) (localMidnight tz we) = e - s"
  using assms(2-4) by (simp add: countOverlapDays_midnights [OF assms(1)])

theorem countOverlapDays_contained_witness:
  "zone_regular cet2026
   \<and> civil 2026 3 27 \<le> civil 2026 3 31 \<and> civil 2026 3 1 \<le> civil 2026 3 27
   \<and> civil 2026 3 31 \<le> civil 2026 4 1
   \<and> countOverlapDays cet2026 (civil 2026 3 27) (civil 2026 3 31)
        (localMidnight cet2026 (civil 2026 3 1)) (localMidnight cet2026 (civil 2026 4 1)) = 4"
proof -
  have h: "civil 2026 3 27 \<le> civil 2026 3 31" "civil 2026 3 1 \<le> civil 2026 3 27"
      "civil 2026 3 31 \<le> civil 2026 4 1"
    by (simp_all add: civil_def MakeDay_def DayFromYear_def InLeapYear_def monthOffset_def)
  have "civil 2026 3 31 - civil 2026 3 27 = 4"
    by (simp add: civil_def MakeDay_def DayFromYear_def InLeapYear_def monthOffset_def)
  with countOverlapDays_contained [OF zone_regular_cet2026 h] zone_regular_cet2026 h
  show ?thesis by simp
qed

section \<open>Calendar arithmetic\<close>

lemma div_succ:
  fixes x n :: int
  assumes "1 < n"
  shows "(x + 1) div n = x div n + (if (x + 1) mod n = 0 then 1 else 0)"
proof -
  define q r where "q = x div n" and "r = x mod n"
  have x: "x = r + q * n" by (simp add: q_def r_def)
  have r: "0 \<le> r" "r < n" using assms by (simp_all add: r_def)
  show ?thesis
  proof (cases "r + 1 = n")
    case True
    then have e: "x + 1 = 0 + (q + 1) * n" using x by (simp add: algebra_simps)
    have "(x + 1) div n = q + 1" "(x + 1) mod n = 0"
      unfolding e using assms by simp_all
    then show ?thesis by (simp add: q_def)
  next
    case False
    with r have s: "0 \<le> r + 1" "r + 1 < n" by simp_all
    have e: "x + 1 = (r + 1) + q * n" using x by simp
    have "(x + 1) div n = q + (r + 1) div n" "(x + 1) mod n = (r + 1) mod n"
      unfolding e using assms by simp_all
    with s r show ?thesis by (simp add: q_def div_pos_pos_trivial mod_pos_pos_trivial)
  qed
qed

lemma shift_mod4: "(y - 1968) mod 4 = y mod 4" for y :: int
  using mod_mult_self2 [of y 4 "- 492"] by simp

lemma shift_mod100: "(y - 1900) mod 100 = y mod 100" for y :: int
  using mod_mult_self2 [of y 100 "- 19"] by simp

lemma shift_mod400: "(y - 1600) mod 400 = y mod 400" for y :: int
  using mod_mult_self2 [of y 400 "- 4"] by simp

lemma mod400_mod100: "y mod 400 = 0 \<Longrightarrow> y mod 100 = 0" for y :: int
proof -
  assume "y mod 400 = 0"
  then have "400 dvd y" by (simp add: mod_eq_0_iff_dvd)
  moreover have "(100::int) dvd 400" by simp
  ultimately have "100 dvd y" by (rule dvd_trans [rotated])
  then show ?thesis by (simp add: mod_eq_0_iff_dvd)
qed

lemma mod100_mod4: "y mod 100 = 0 \<Longrightarrow> y mod 4 = 0" for y :: int
proof -
  assume "y mod 100 = 0"
  then have "100 dvd y" by (simp add: mod_eq_0_iff_dvd)
  moreover have "(4::int) dvd 100" by simp
  ultimately have "4 dvd y" by (rule dvd_trans [rotated])
  then show ?thesis by (simp add: mod_eq_0_iff_dvd)
qed

lemma year_length:
  "DayFromYear (y + 1) - DayFromYear y = 365 + (if InLeapYear y then 1 else 0)"
proof -
  have a: "(y + 1 - 1969) div 4 = (y - 1969) div 4 + (if y mod 4 = 0 then 1 else 0)"
    using div_succ [of 4 "y - 1969"] shift_mod4 [of y] by simp
  have b: "(y + 1 - 1901) div 100 = (y - 1901) div 100 + (if y mod 100 = 0 then 1 else 0)"
    using div_succ [of 100 "y - 1901"] shift_mod100 [of y] by simp
  have c: "(y + 1 - 1601) div 400 = (y - 1601) div 400 + (if y mod 400 = 0 then 1 else 0)"
    using div_succ [of 400 "y - 1601"] shift_mod400 [of y] by simp
  show ?thesis
    unfolding DayFromYear_def InLeapYear_def a b c
    using mod400_mod100 [of y] mod100_mod4 [of y] by auto
qed

lemma MakeDay_month_length:
  assumes "0 \<le> mi" "mi \<le> 11"
  shows "MakeDay y (mi + 1) 1 - MakeDay y mi 1 = daysInMonth y mi"
proof -
  from assms consider "mi = 0" | "mi = 1" | "mi = 2" | "mi = 3" | "mi = 4" | "mi = 5"
    | "mi = 6" | "mi = 7" | "mi = 8" | "mi = 9" | "mi = 10" | "mi = 11"
    by atomize_elim presburger
  then show ?thesis
  proof cases
    case 12
    have "MakeDay y 12 1 - MakeDay y 11 1
        = DayFromYear (y + 1) - DayFromYear y - (334 + (if InLeapYear y then 1 else 0))"
      by (simp add: MakeDay_def monthOffset_def)
    then show ?thesis
      using 12 by (simp add: year_length daysInMonth_def)
  qed (simp_all add: MakeDay_def monthOffset_def daysInMonth_def)
qed

lemma MakeDay_carry: "MakeDay (y - 1) 12 1 = MakeDay y 0 1"
  by (simp add: MakeDay_def)

lemma daysInMonth_bounds: "28 \<le> daysInMonth y mi \<and> daysInMonth y mi \<le> 31"
  by (simp add: daysInMonth_def)

lemma jsRem_month:
  assumes "0 \<le> m" "m \<le> 11"
  shows "jsRem (m - 1 + 12) 12 = (if m = 0 then 11 else m - 1)"
proof -
  from assms consider "m = 0" | "1 \<le> m" "m \<le> 11" by linarith
  then show ?thesis
  proof cases
    case 1 then show ?thesis by (simp add: jsRem_def)
  next
    case 2
    then have "(m - 1 + 12) mod 12 = m - 1"
      using mod_add_self2 [of "m - 1" 12] by (simp add: mod_pos_pos_trivial)
    with 2 show ?thesis by (simp add: jsRem_def)
  qed
qed

section \<open>The window of the previous month\<close>

lemma window_monthStart:
  assumes "wallClock now"
  shows "monthStart (getPreviousMonthWindow tz now)
           = localMidnight tz (civil (prevYear now) (prevMonthIndex now + 1) 1)"
proof -
  from assms have m: "0 \<le> getMonth now" "getMonth now \<le> 11" and y: "1970 \<le> getFullYear now"
    by (simp_all add: wallClock_def)
  have neg: "getMonth now < 1 \<longleftrightarrow> getMonth now = 0"
    using m by linarith
  have rem: "jsRem (11 + getMonth now) 12 = (if getMonth now = 0 then 11 else getMonth now - 1)"
    using jsRem_month [OF m] by (simp add: add.commute)
  show ?thesis
    using y by (simp add: getPreviousMonthWindow_def Let_def neg rem
        newDate_def civil_def prevYear_def prevMonthIndex_def)
qed

lemma window_monthEnd:
  assumes "wallClock now"
  shows "monthEnd (getPreviousMonthWindow tz now)
           = localMidnight tz (civil (getFullYear now) (getMonth now + 1) 1)"
proof -
  from assms have m: "0 \<le> getMonth now" "getMonth now \<le> 11" and y: "1970 \<le> getFullYear now"
    by (simp_all add: wallClock_def)
  have neg: "getMonth now < 1 \<longleftrightarrow> getMonth now = 0"
    using m by linarith
  have rem: "jsRem (11 + getMonth now) 12 = (if getMonth now = 0 then 11 else getMonth now - 1)"
    using jsRem_month [OF m] by (simp add: add.commute)
  show ?thesis
    using y by (simp add: getPreviousMonthWindow_def Let_def neg rem
        newDate_def civil_def MakeDay_carry)
qed

lemma window_totalDays_raw:
  "totalDays_win (getPreviousMonthWindow tz now)
     = mathRoundDiv (monthEnd (getPreviousMonthWindow tz now)
                      - monthStart (getPreviousMonthWindow tz now)) 86400000"
  by (simp add: getPreviousMonthWindow_def Let_def)

lemma window_label:
  assumes "wallClock now"
  shows "label (getPreviousMonthWindow tz now)
           = showInt (prevYear now) @ ''-'' @ padStart2 (showInt (prevMonthIndex now + 1))"
proof -
  from assms have m: "0 \<le> getMonth now" "getMonth now \<le> 11"
    by (simp_all add: wallClock_def)
  have neg: "getMonth now < 1 \<longleftrightarrow> getMonth now = 0"
    using m by linarith
  have rem: "jsRem (11 + getMonth now) 12 = (if getMonth now = 0 then 11 else getMonth now - 1)"
    using jsRem_month [OF m] by (simp add: add.commute)
  show ?thesis
    by (simp add: getPreviousMonthWindow_def Let_def neg rem
        prevYear_def prevMonthIndex_def)
qed

lemma prev_month_span:
  assumes "wallClock now"
  shows "civil (getFullYear now) (getMonth now + 1) 1
           - civil (prevYear now) (prevMonthIndex now + 1) 1
         = daysInMonth (prevYear now) (prevMonthIndex now)"
proof (cases "getMonth now = 0")
  case True
  have "MakeDay (getFullYear now - 1) (11 + 1) 1 - MakeDay (getFullYear now - 1) 11 1
      = daysInMonth (getFullYear now - 1) 11"
    by (rule MakeDay_month_length) simp_all
  then show ?thesis
    using True by (simp add: civil_def prevYear_def prevMonthIndex_def MakeDay_carry)
next
  case False
  with assms have m: "0 \<le> getMonth now - 1" "getMonth now - 1 \<le> 11"
    by (simp_all add: wallClock_def)
  have "MakeDay (getFullYear now) (getMonth now - 1 + 1) 1
          - MakeDay (getFullYear now) (getMonth now - 1) 1
      = daysInMonth (getFullYear now) (getMonth now - 1)"
    by (rule MakeDay_month_length [OF m])
  then show ?thesis
    using False by (simp add: civil_def prevYear_def prevMonthIndex_def)
qed

lemma window_totalDays:
  assumes "zone_regular tz" "wallClock now"
  shows "totalDays_win (getPreviousMonthWindow tz now)
           = daysInMonth (prevYear now) (prevMonthIndex now)"
  unfolding window_totalDays_raw window_monthStart [OF assms(2)] window_monthEnd [OF assms(2)]
    round_localMidnight_diff [OF assms(1)]
  by (rule prev_month_span [OF assms(2)])

section \<open>The accumulation\<close>

lemma getOrZero_accumulate:
  "getOrZero (accumulate tz a b r m) k
     = getOrZero m k + (if house_id r = k then rowDays tz a b r else 0)"
  using countOverlapDays_nonneg [of tz "start_date r" "end_date r" a b]
  by (auto simp: accumulate_def getOrZero_def rowDays_def Let_def)

lemma getOrZero_fold:
  "getOrZero (fold (accumulate tz a b) rows m) k
     = getOrZero m k + sum_list (map (rowDays tz a b) (filter (\<lambda>r. house_id r = k) rows))"
  by (induction rows arbitrary: m) (simp_all add: getOrZero_accumulate)

lemma getOrZero_aggregate:
  "getOrZero (aggregate tz a b rows) k
     = sum_list (map (rowDays tz a b) (filter (\<lambda>r. house_id r = k) rows))"
  by (simp add: aggregate_def getOrZero_fold) (simp add: getOrZero_def)

lemma rowDays_nonneg: "0 \<le> rowDays tz a b r"
  by (simp add: rowDays_def countOverlapDays_nonneg)

section \<open>The shape of the answer\<close>

lemma GET_Json200:
  assumes "error (houses_response db) = None" "bookings_failure db = None"
  shows "GET tz now db =
     Json200 (label (getPreviousMonthWindow tz now)) (totalDays_win (getPreviousMonthWindow tz now))
       (buildRows (housesOf db)
          (aggregate tz (monthStart (getPreviousMonthWindow tz now))
             (monthEnd (getPreviousMonthWindow tz now)) (fetchedRows tz now db))
          (totalDays_win (getPreviousMonthWindow tz now)) (label (getPreviousMonthWindow tz now)))"
  using assms by (simp add: GET_def Let_def housesOf_def fetchedRows_def select_bookings_def)

lemma fetchedRows_eq:
  assumes "bookings_failure db = None"
  shows "fetchedRows tz now db =
     filter (\<lambda>b. status b = ''active''
        \<and> start_date b < toISODate (monthEnd (getPreviousMonthWindow tz now))
        \<and> end_date b > toISODate (monthStart (getPreviousMonthWindow tz now))) (bookings_table db)"
  using assms by (simp add: fetchedRows_def select_bookings_def Let_def)

lemma buildRows_length: "length (buildRows hs m n l) = length hs"
  by (simp add: buildRows_def)

lemma buildRows_nth:
  assumes "i < length hs"
  shows "buildRows hs m n l ! i =
     \<lparr>houseId = id_house (hs ! i), houseName = name (hs ! i), month = l,
      daysWithBookings = getOrZero m (id_house (hs ! i)), totalDays = n,
      usageRate = (if n > 0 then of_int (getOrZero m (id_house (hs ! i))) / of_int n else 0)\<rparr>"
  using assms by (simp add: buildRows_def Let_def)

lemma buildRows_cong:
  assumes "\<And>h. h \<in> set hs \<Longrightarrow> getOrZero m (id_house h) = getOrZero m' (id_house h)"
  shows "buildRows hs m n l = buildRows hs m' n l"
  using assms by (simp add: buildRows_def Let_def)

lemmas calendar_defs = civil_def MakeDay_def DayFromYear_def InLeapYear_def monthOffset_def

lemma showNat_digit: "n < 10 \<Longrightarrow> showNat n = [''0123456789'' ! n]"
  by (simp add: showNat.simps)

lemma showNat_more:
  "10 \<le> n \<Longrightarrow> showNat n = showNat (n div 10) @ [''0123456789'' ! (n mod 10)]"
  by (subst showNat.simps) simp

section \<open>Sums over the fetched rows\<close>

lemma sum_list_filter_mset:
  fixes f :: "'a \<Rightarrow> int"
  assumes "mset xs = mset ys"
  shows "sum_list (map f (filter P xs)) = sum_list (map f (filter P ys))"
proof -
  have "sum_list (map f (filter P zs)) = sum_mset (image_mset f (filter_mset P (mset zs)))" for zs
    by (simp add: sum_mset_sum_list [symmetric])
  then show ?thesis using assms by simp
qed

lemma sum_list_ge_member:
  fixes f :: "'a \<Rightarrow> int"
  assumes "\<And>x. 0 \<le> f x" "b \<in> set xs"
  shows "f b \<le> sum_list (map f xs)"
  using assms(2)
proof (induction xs)
  case Nil
  then show ?case by simp
next
  case (Cons x xs)
  have "0 \<le> sum_list (map f xs)"
    by (rule sum_list_nonneg) (auto simp: assms(1))
  with Cons assms(1) [of x] show ?case by auto
qed

lemma sum_list_all_zero:
  fixes f :: "'a \<Rightarrow> int"
  shows "(\<And>x. x \<in> set xs \<Longrightarrow> f x = 0) \<Longrightarrow> sum_list (map f xs) = 0"
  by (induction xs) auto

lemma GET_houses_error:
  "error (houses_response db) = Some msg \<Longrightarrow> GET tz now db = Json500 msg"
  by (simp add: GET_def Let_def)

lemma GET_bookings_error:
  "error (houses_response db) = None \<Longrightarrow> bookings_failure db = Some msg
     \<Longrightarrow> GET tz now db = Json500 msg"
  by (simp add: GET_def Let_def select_bookings_def)

lemma GET_eq_if_sums_eq:
  assumes h: "houses_response db' = houses_response db"
    and f: "bookings_failure db' = bookings_failure db"
    and s: "\<And>h. h \<in> set (housesOf db) \<Longrightarrow>
       sum_list (map (rowDays tz (monthStart (getPreviousMonthWindow tz now))
                        (monthEnd (getPreviousMonthWindow tz now)))
                  (filter (\<lambda>r. house_id r = id_house h) (fetchedRows tz now db')))
     = sum_list (map (rowDays tz (monthStart (getPreviousMonthWindow tz now))
                        (monthEnd (getPreviousMonthWindow tz now)))
                  (filter (\<lambda>r. house_id r = id_house h) (fetchedRows tz now db)))"
  shows "GET tz now db' = GET tz now db"
proof (cases "error (houses_response db)")
  case (Some msg)
  then show ?thesis using h by (simp add: GET_houses_error)
next
  case None
  note noHouseErr = this
  show ?thesis
  proof (cases "bookings_failure db")
    case (Some msg)
    then show ?thesis using h f noHouseErr by (simp add: GET_bookings_error)
  next
    case None
    have hs: "housesOf db' = housesOf db"
      using h by (simp add: housesOf_def)
    have "buildRows (housesOf db)
            (aggregate tz (monthStart (getPreviousMonthWindow tz now))
               (monthEnd (getPreviousMonthWindow tz now)) (fetchedRows tz now db'))
            (totalDays_win (getPreviousMonthWindow tz now)) (label (getPreviousMonthWindow tz now))
        = buildRows (housesOf db)
            (aggregate tz (monthStart (getPreviousMonthWindow tz now))
               (monthEnd (getPreviousMonthWindow tz now)) (fetchedRows tz now db))
            (totalDays_win (getPreviousMonthWindow tz now)) (label (getPreviousMonthWindow tz now))"
      by (rule buildRows_cong) (simp add: getOrZero_aggregate s)
    then show ?thesis
      using None noHouseErr h f by (simp add: GET_Json200 hs)
  qed
qed

section \<open>The filter of the query and the window\<close>

lemma countOverlapDays_le_window:
  assumes "zone_regular tz" "ws \<le> we"
  shows "countOverlapDays tz s e (localMidnight tz ws) (localMidnight tz we) \<le> we - ws"
  using assms(2) by (simp add: countOverlapDays_midnights [OF assms(1)])

lemma toISODate_localMidnight:
  assumes "- 86400000 < tz d" "tz d \<le> 0"
  shows "toISODate (localMidnight tz d) = d"
proof -
  have "(- tz d + d * 86400000) div 86400000 = d + (- tz d) div 86400000"
    by simp
  also have "(- tz d) div 86400000 = 0"
    using assms by (intro div_pos_pos_trivial) simp_all
  finally show ?thesis
    by (simp add: toISODate_def localMidnight_def msPerDay_def)
qed

lemma GET_ignores_inactive:
  "GET tz now (db\<lparr>bookings_table := filter (\<lambda>b. status b = ''active'') (bookings_table db)\<rparr>)
     = GET tz now db"
proof (rule GET_eq_if_sums_eq)
  let ?db' = "db\<lparr>bookings_table := filter (\<lambda>b. status b = ''active'') (bookings_table db)\<rparr>"
  show "houses_response ?db' = houses_response db" by simp
  show "bookings_failure ?db' = bookings_failure db" by simp
  fix h
  have "fetchedRows tz now ?db' = fetchedRows tz now db"
    by (cases "bookings_failure db")
      (auto simp: fetchedRows_def select_bookings_def Let_def intro!: filter_cong)
  then show "sum_list (map (rowDays tz (monthStart (getPreviousMonthWindow tz now))
                        (monthEnd (getPreviousMonthWindow tz now)))
                  (filter (\<lambda>r. house_id r = id_house h) (fetchedRows tz now ?db')))
     = sum_list (map (rowDays tz (monthStart (getPreviousMonthWindow tz now))
                        (monthEnd (getPreviousMonthWindow tz now)))
                  (filter (\<lambda>r. house_id r = id_house h) (fetchedRows tz now db)))"
    by simp
qed

text \<open>In a zone at or west of UTC the claim on the aggregation holds.\<close>

lemma daysWithBookings_at_or_west_of_utc:
  assumes reg: "zone_regular tz" and clock: "wallClock now"
    and west: "\<And>d. - 86400000 < tz d \<and> tz d \<le> 0"
    and ok: "error (houses_response db) = None" "bookings_failure db = None"
    and i: "i < length (housesOf db)"
  shows "daysWithBookings (body_rows (GET tz now db) ! i)
     = spec_daysWithBookings (civil (prevYear now) (prevMonthIndex now + 1) 1)
         (civil (getFullYear now) (getMonth now + 1) 1)
         (bookings_table db) (id_house (housesOf db ! i))"
proof -
  let ?w = "getPreviousMonthWindow tz now"
  let ?ws = "civil (prevYear now) (prevMonthIndex now + 1) 1"
  let ?we = "civil (getFullYear now) (getMonth now + 1) 1"
  let ?h = "id_house (housesOf db ! i)"
  have ms: "monthStart ?w = localMidnight tz ?ws" by (rule window_monthStart [OF clock])
  have me: "monthEnd ?w = localMidnight tz ?we" by (rule window_monthEnd [OF clock])
  have iso: "toISODate (monthStart ?w) = ?ws" "toISODate (monthEnd ?w) = ?we"
    using west by (simp_all add: ms me toISODate_localMidnight)
  have rows: "fetchedRows tz now db
      = filter (\<lambda>b. status b = ''active'' \<and> start_date b < ?we \<and> end_date b > ?ws)
          (bookings_table db)"
    by (simp add: fetchedRows_eq [OF ok(2)] iso)
  have days: "rowDays tz (monthStart ?w) (monthEnd ?w)
      = (\<lambda>b. max 0 (min (end_date b) ?we - max (start_date b) ?ws))"
    by (rule ext) (simp add: rowDays_def ms me countOverlapDays_midnights [OF reg])
  have "daysWithBookings (body_rows (GET tz now db) ! i)
      = sum_list (map (rowDays tz (monthStart ?w) (monthEnd ?w))
          (filter (\<lambda>r. house_id r = ?h) (fetchedRows tz now db)))"
    using i by (simp add: GET_Json200 [OF ok] buildRows_nth getOrZero_aggregate)
  also have "\<dots> = spec_daysWithBookings ?ws ?we (bookings_table db) ?h"
    unfolding days rows spec_daysWithBookings_def
    by (simp add: conj_commute conj_left_commute cong: conj_cong)
  finally show ?thesis .
qed

section \<open>The example inputs, evaluated\<close>

lemma window_feb2026_utc:
  "getPreviousMonthWindow utc feb2026
     = \<lparr>monthStart = 1767225600000, monthEnd = 1769904000000, totalDays_win = 31,
        label = ''2026-01''\<rparr>"
  unfolding getPreviousMonthWindow_def Let_def feb2026_def
  by (simp add: jsRem_def newDate_def localMidnight_def utc_def msPerDay_def calendar_defs
      mathRoundDiv_def showInt_def showNat_digit showNat_more padStart2_def)

lemma window_feb2026_cet:
  "getPreviousMonthWindow cet2026 feb2026
     = \<lparr>monthStart = 1767222000000, monthEnd = 1769900400000, totalDays_win = 31,
        label = ''2026-01''\<rparr>"
  unfolding getPreviousMonthWindow_def Let_def feb2026_def
  by (simp add: jsRem_def newDate_def localMidnight_def cet2026_def msPerDay_def calendar_defs
      mathRoundDiv_def showInt_def showNat_digit showNat_more padStart2_def)

lemma fetchedRows_scenario:
  "fetchedRows utc feb2026 scenarioStore =
     [mkBooking 1 (civil 2026 1 10) (civil 2026 1 15) ''active'',
      mkBooking 1 (civil 2026 1 14) (civil 2026 1 20) ''active'',
      mkBooking 2 (civil 2025 12 28) (civil 2026 1 3) ''active'',
      mkBooking 9 (civil 2026 1 5) (civil 2026 1 8) ''active'']"
  unfolding fetchedRows_def Let_def window_feb2026_utc
  by (simp add: select_bookings_def scenarioStore_def toISODate_def msPerDay_def
      mkBooking_def calendar_defs)

lemma housesOf_scenario: "housesOf scenarioStore = threeHouses"
  by (simp add: housesOf_def scenarioStore_def)

lemma rowDays_utc_jan2026:
  "rowDays utc 1767225600000 1769904000000 (mkBooking h s e st)
     = max 0 (min e (civil 2026 2 1) - max s (civil 2026 1 1))"
proof -
  have "1767225600000 = localMidnight utc (civil 2026 1 1)"
    "1769904000000 = localMidnight utc (civil 2026 2 1)"
    by (simp_all add: localMidnight_def utc_def msPerDay_def calendar_defs)
  then show ?thesis
    by (simp only: rowDays_def mkBooking_def booking.simps
        countOverlapDays_midnights [OF zone_regular_utc])
qed

lemma fetchedRows_lastDay_utc:
  "fetchedRows utc feb2026 lastDayStore = [mkBooking 1 (civil 2026 1 31) (civil 2026 2 2) ''active'']"
  unfolding fetchedRows_def Let_def window_feb2026_utc
  by (simp add: select_bookings_def lastDayStore_def toISODate_def msPerDay_def
      mkBooking_def calendar_defs)

lemma fetchedRows_lastDay_cet: "fetchedRows cet2026 feb2026 lastDayStore = []"
  unfolding fetchedRows_def Let_def window_feb2026_cet
  by (simp add: select_bookings_def lastDayStore_def toISODate_def msPerDay_def
      mkBooking_def calendar_defs)

lemma fetchedRows_november: "fetchedRows utc feb2026 novemberStore = []"
  unfolding fetchedRows_def Let_def window_feb2026_utc
  by (simp add: select_bookings_def novemberStore_def toISODate_def msPerDay_def
      mkBooking_def calendar_defs)

lemma fetchedRows_overlap:
  "fetchedRows utc feb2026 overlapStore
     = replicate 5 (mkBooking 1 (civil 2026 1 10) (civil 2026 1 17) ''active'')"
  unfolding fetchedRows_def Let_def window_feb2026_utc
  by (simp add: select_bookings_def overlapStore_def toISODate_def msPerDay_def
      mkBooking_def calendar_defs)

lemma aggregate_Nil: "getOrZero (aggregate tz a b []) k = 0"
  by (simp add: getOrZero_aggregate)

lemma housesOf_lastDay: "housesOf lastDayStore = [\<lparr>id_house = 1, name = ''Bay Ave''\<rparr>]"
  by (simp add: housesOf_def lastDayStore_def)

lemma housesOf_overlap: "housesOf overlapStore = [\<lparr>id_house = 1, name = ''Bay Ave''\<rparr>]"
  by (simp add: housesOf_def overlapStore_def)

lemma GET_overlap:
  "GET utc feb2026 overlapStore =
     Json200 ''2026-01'' 31
       [\<lparr>houseId = 1, houseName = ''Bay Ave'', month = ''2026-01'',
         daysWithBookings = 35, totalDays = 31, usageRate = 35 / 31\<rparr>]"
proof -
  have e: "error (houses_response overlapStore) = None" "bookings_failure overlapStore = None"
    by (simp_all add: overlapStore_def)
  have "getOrZero (aggregate utc 1767225600000 1769904000000
          (replicate 5 (mkBooking 1 (civil 2026 1 10) (civil 2026 1 17) ''active''))) 1 = 35"
    unfolding getOrZero_aggregate
    by (simp add: numeral_eq_Suc rowDays_utc_jan2026) (simp add: mkBooking_def calendar_defs)
  then show ?thesis
    unfolding GET_Json200 [OF e] window_feb2026_utc fetchedRows_overlap housesOf_overlap
    by (simp add: buildRows_def)
qed

lemma GET_lastDay_utc:
  "GET utc feb2026 lastDayStore =
     Json200 ''2026-01'' 31
       [\<lparr>houseId = 1, houseName = ''Bay Ave'', month = ''2026-01'',
         daysWithBookings = 1, totalDays = 31, usageRate = 1 / 31\<rparr>]"
proof -
  have e: "error (houses_response lastDayStore) = None" "bookings_failure lastDayStore = None"
    by (simp_all add: lastDayStore_def)
  have "getOrZero (aggregate utc 1767225600000 1769904000000
          [mkBooking 1 (civil 2026 1 31) (civil 2026 2 2) ''active'']) 1 = 1"
    unfolding getOrZero_aggregate
    by (simp add: rowDays_utc_jan2026) (simp add: mkBooking_def calendar_defs)
  then show ?thesis
    unfolding GET_Json200 [OF e] window_feb2026_utc fetchedRows_lastDay_utc housesOf_lastDay
    by (simp add: buildRows_def)
qed

lemma GET_lastDay_cet:
  "GET cet2026 feb2026 lastDayStore =
     Json200 ''2026-01'' 31
       [\<lparr>houseId = 1, houseName = ''Bay Ave'', month = ''2026-01'',
         daysWithBookings = 0, totalDays = 31, usageRate = 0\<rparr>]"
proof -
  have e: "error (houses_response lastDayStore) = None" "bookings_failure lastDayStore = None"
    by (simp_all add: lastDayStore_def)
  show ?thesis
    unfolding GET_Json200 [OF e] window_feb2026_cet fetchedRows_lastDay_cet housesOf_lastDay
    by (simp add: buildRows_def aggregate_Nil)
qed

lemma spec_days_lastDay:
  "spec_daysWithBookings (civil 2026 1 1) (civil 2026 2 1) (bookings_table lastDayStore) 1 = 1"
  by (simp add: spec_daysWithBookings_def lastDayStore_def mkBooking_def calendar_defs)

section \<open>Claims about the aggregation\<close>

text \<open>
  C2. When neither query fails, \<open>GET\<close> answers with exactly one row per house of
  \<open>houses\<close>, in the order of that list, carrying the house's id and name. A house none of
  whose fetched bookings counts a day has \<open>daysWithBookings = 0\<close> and \<open>usageRate = 0\<close>.
  Every row's \<open>usageRate\<close> is \<open>daysWithBookings / totalDays\<close> when \<open>totalDays > 0\<close> and 0
  otherwise; the row builder, given \<open>totalDays = 0\<close>, sets every \<open>usageRate\<close> to 0.
\<close>

theorem GET_one_row_per_house:
  assumes "error (houses_response db) = None" "bookings_failure db = None"
  shows "(\<exists>lbl n. GET tz now db = Json200 lbl n (body_rows (GET tz now db)))
     \<and> map houseId (body_rows (GET tz now db)) = map id_house (housesOf db)
     \<and> map houseName (body_rows (GET tz now db)) = map name (housesOf db)
     \<and> (\<forall>i < length (housesOf db).
          (\<forall>b \<in> set (fetchedRows tz now db).
              house_id b = id_house (housesOf db ! i) \<longrightarrow>
              rowDays tz (monthStart (getPreviousMonthWindow tz now))
                (monthEnd (getPreviousMonthWindow tz now)) b = 0)
          \<longrightarrow> daysWithBookings (body_rows (GET tz now db) ! i) = 0
              \<and> usageRate (body_rows (GET tz now db) ! i) = 0)
     \<and> (\<forall>r \<in> set (body_rows (GET tz now db)).
          totalDays r = body_totalDays (GET tz now db)
          \<and> usageRate r = (if totalDays r > 0
                            then of_int (daysWithBookings r) / of_int (totalDays r) else 0))
     \<and> (\<forall>r \<in> set (buildRows hs m 0 l). usageRate r = 0)"
proof (intro conjI allI impI ballI)
  let ?w = "getPreviousMonthWindow tz now"
  let ?m = "aggregate tz (monthStart ?w) (monthEnd ?w) (fetchedRows tz now db)"
  have G: "GET tz now db = Json200 (label ?w) (totalDays_win ?w)
             (buildRows (housesOf db) ?m (totalDays_win ?w) (label ?w))"
    by (rule GET_Json200 [OF assms])
  show "\<exists>lbl n. GET tz now db = Json200 lbl n (body_rows (GET tz now db))"
    by (simp add: G)
  show "map houseId (body_rows (GET tz now db)) = map id_house (housesOf db)"
    by (simp add: G buildRows_def Let_def)
  show "map houseName (body_rows (GET tz now db)) = map name (housesOf db)"
    by (simp add: G buildRows_def Let_def)
  show "totalDays r = body_totalDays (GET tz now db)"
    if "r \<in> set (body_rows (GET tz now db))" for r
    using that by (auto simp: G buildRows_def Let_def)
  show "usageRate r = (if totalDays r > 0
                            then of_int (daysWithBookings r) / of_int (totalDays r) else 0)"
    if "r \<in> set (body_rows (GET tz now db))" for r
    using that by (auto simp: G buildRows_def Let_def)
  show "usageRate r = 0" if "r \<in> set (buildRows hs m 0 l)" for r
    using that by (auto simp: buildRows_def Let_def)
  fix i
  assume i: "i < length (housesOf db)"
    and z: "\<forall>b \<in> set (fetchedRows tz now db).
              house_id b = id_house (housesOf db ! i) \<longrightarrow>
              rowDays tz (monthStart ?w) (monthEnd ?w) b = 0"
  have "getOrZero ?m (id_house (housesOf db ! i)) = 0"
    unfolding getOrZero_aggregate using z by (intro sum_list_all_zero) auto
  then show "daysWithBookings (body_rows (GET tz now db) ! i) = 0"
    "usageRate (body_rows (GET tz now db) ! i) = 0"
    using i by (simp_all add: G buildRows_nth)
qed

theorem GET_one_row_per_house_witness:
  "error (houses_response scenarioStore) = None \<and> bookings_failure scenarioStore = None
   \<and> map houseId (body_rows (GET utc feb2026 scenarioStore)) = [1, 2, 3]
   \<and> map houseName (body_rows (GET utc feb2026 scenarioStore)) = [''Bay Ave'', ''Bear Ln'', ''Cabin'']
   \<and> (2::nat) < length (housesOf scenarioStore)
   \<and> daysWithBookings (body_rows (GET utc feb2026 scenarioStore) ! 2) = 0
   \<and> usageRate (body_rows (GET utc feb2026 scenarioStore) ! 2) = 0"
proof -
  have e: "error (houses_response scenarioStore) = None" "bookings_failure scenarioStore = None"
    by (simp_all add: scenarioStore_def)
  have i: "(2::nat) < length (housesOf scenarioStore)"
    by (simp add: housesOf_scenario threeHouses_def)
  have none: "\<forall>b \<in> set (fetchedRows utc feb2026 scenarioStore).
      house_id b = id_house (housesOf scenarioStore ! 2) \<longrightarrow>
      rowDays utc (monthStart (getPreviousMonthWindow utc feb2026))
        (monthEnd (getPreviousMonthWindow utc feb2026)) b = 0"
    by (simp add: fetchedRows_scenario housesOf_scenario threeHouses_def mkBooking_def)
  note t = GET_one_row_per_house [OF e, of utc feb2026]
  from t have "map houseId (body_rows (GET utc feb2026 scenarioStore)) = [1, 2, 3]"
    "map houseName (body_rows (GET utc feb2026 scenarioStore)) = [''Bay Ave'', ''Bear Ln'', ''Cabin'']"
    by (simp_all add: housesOf_scenario threeHouses_def)
  moreover from t i none have "daysWithBookings (body_rows (GET utc feb2026 scenarioStore) ! 2) = 0"
    "usageRate (body_rows (GET utc feb2026 scenarioStore) ! 2) = 0"
    by blast+
  ultimately show ?thesis using e i by blast
qed

text \<open>
  C9. When neither query fails, the answer has as many rows as \<open>houses\<close> and is not an
  error. Removing from the table every booking whose \<open>house_id\<close> is the id of no house
  leaves the answer the same. Such a booking, when fetched with a positive number of
  days, is nevertheless accumulated: the map holds an entry under its \<open>house_id\<close>, at
  least as large as its days.
\<close>

theorem GET_unknown_house_id_discarded:
  assumes "error (houses_response db) = None" "bookings_failure db = None"
  shows "(\<exists>lbl n rows. GET tz now db = Json200 lbl n rows)
     \<and> length (body_rows (GET tz now db)) = length (housesOf db)
     \<and> GET tz now (db\<lparr>bookings_table :=
           filter (\<lambda>b. house_id b \<in> id_house ` set (housesOf db)) (bookings_table db)\<rparr>)
         = GET tz now db
     \<and> (\<forall>b \<in> set (fetchedRows tz now db).
           0 < rowDays tz (monthStart (getPreviousMonthWindow tz now))
                 (monthEnd (getPreviousMonthWindow tz now)) b \<longrightarrow>
           (\<exists>v. aggregate tz (monthStart (getPreviousMonthWindow tz now))
                    (monthEnd (getPreviousMonthWindow tz now)) (fetchedRows tz now db) (house_id b)
                  = Some v
               \<and> rowDays tz (monthStart (getPreviousMonthWindow tz now))
                    (monthEnd (getPreviousMonthWindow tz now)) b \<le> v))"
proof (intro conjI ballI impI)
  let ?w = "getPreviousMonthWindow tz now"
  let ?rows = "fetchedRows tz now db"
  let ?m = "aggregate tz (monthStart ?w) (monthEnd ?w) ?rows"
  let ?days = "rowDays tz (monthStart ?w) (monthEnd ?w)"
  have G: "GET tz now db = Json200 (label ?w) (totalDays_win ?w)
             (buildRows (housesOf db) ?m (totalDays_win ?w) (label ?w))"
    by (rule GET_Json200 [OF assms])
  show "\<exists>lbl n rows. GET tz now db = Json200 lbl n rows"
    by (simp add: G)
  show "length (body_rows (GET tz now db)) = length (housesOf db)"
    by (simp add: G buildRows_length)
  let ?db' = "db\<lparr>bookings_table :=
           filter (\<lambda>b. house_id b \<in> id_house ` set (housesOf db)) (bookings_table db)\<rparr>"
  show "GET tz now ?db' = GET tz now db"
  proof (rule GET_eq_if_sums_eq)
    show "houses_response ?db' = houses_response db" by simp
    show "bookings_failure ?db' = bookings_failure db" by simp
    fix h
    assume "h \<in> set (housesOf db)"
    then have "filter (\<lambda>r. house_id r = id_house h) (fetchedRows tz now ?db')
        = filter (\<lambda>r. house_id r = id_house h) ?rows"
      using assms(2) by (auto simp: fetchedRows_eq intro!: filter_cong)
    then show "sum_list (map ?days (filter (\<lambda>r. house_id r = id_house h) (fetchedRows tz now ?db')))
        = sum_list (map ?days (filter (\<lambda>r. house_id r = id_house h) ?rows))"
      by simp
  qed
  fix b
  assume b: "b \<in> set ?rows" and pos: "0 < ?days b"
  have "?days b \<le> sum_list (map ?days (filter (\<lambda>r. house_id r = house_id b) ?rows))"
    by (rule sum_list_ge_member) (use b in \<open>simp_all add: rowDays_nonneg\<close>)
  then have ge: "?days b \<le> getOrZero ?m (house_id b)"
    by (simp add: getOrZero_aggregate)
  with pos have "0 < getOrZero ?m (house_id b)" by linarith
  then obtain v where v: "?m (house_id b) = Some v"
    by (cases "?m (house_id b)") (simp_all add: getOrZero_def)
  with ge have "?days b \<le> v" by (simp add: getOrZero_def)
  with v show "\<exists>v. ?m (house_id b) = Some v \<and> ?days b \<le> v" by blast
qed

theorem GET_unknown_house_id_discarded_witness:
  "error (houses_response scenarioStore) = None \<and> bookings_failure scenarioStore = None
   \<and> length (body_rows (GET utc feb2026 scenarioStore)) = 3
   \<and> mkBooking 9 (civil 2026 1 5) (civil 2026 1 8) ''active''
        \<in> set (fetchedRows utc feb2026 scenarioStore)
   \<and> 0 < rowDays utc (monthStart (getPreviousMonthWindow utc feb2026))
         (monthEnd (getPreviousMonthWindow utc feb2026))
         (mkBooking 9 (civil 2026 1 5) (civil 2026 1 8) ''active'')
   \<and> (\<exists>v. aggregate utc (monthStart (getPreviousMonthWindow utc feb2026))
          (monthEnd (getPreviousMonthWindow utc feb2026))
          (fetchedRows utc feb2026 scenarioStore) 9 = Some v \<and> 3 \<le> v)
   \<and> GET utc feb2026 (scenarioStore\<lparr>bookings_table :=
           filter (\<lambda>b. house_id b \<in> id_house ` set (housesOf scenarioStore))
             (bookings_table scenarioStore)\<rparr>)
       = GET utc feb2026 scenarioStore"
proof -
  let ?b = "mkBooking 9 (civil 2026 1 5) (civil 2026 1 8) ''active''"
  have e: "error (houses_response scenarioStore) = None" "bookings_failure scenarioStore = None"
    by (simp_all add: scenarioStore_def)
  have b: "?b \<in> set (fetchedRows utc feb2026 scenarioStore)"
    by (simp add: fetchedRows_scenario)
  have d: "rowDays utc (monthStart (getPreviousMonthWindow utc feb2026))
         (monthEnd (getPreviousMonthWindow utc feb2026)) ?b = 3"
    by (simp add: window_feb2026_utc rowDays_utc_jan2026 calendar_defs)
  have h: "house_id ?b = 9" by (simp add: mkBooking_def)
  note t = GET_unknown_house_id_discarded [OF e, of utc feb2026]
  from t have "length (body_rows (GET utc feb2026 scenarioStore)) = 3"
    by (simp add: housesOf_scenario threeHouses_def)
  moreover from t b d h have "\<exists>v. aggregate utc (monthStart (getPreviousMonthWindow utc feb2026))
          (monthEnd (getPreviousMonthWindow utc feb2026))
          (fetchedRows utc feb2026 scenarioStore) 9 = Some v \<and> 3 \<le> v"
    by (metis zero_less_numeral)
  moreover from t have "GET utc feb2026 (scenarioStore\<lparr>bookings_table :=
           filter (\<lambda>b. house_id b \<in> id_house ` set (housesOf scenarioStore))
             (bookings_table scenarioStore)\<rparr>)
       = GET utc feb2026 scenarioStore"
    by blast
  ultimately show ?thesis using e b d by simp
qed

text \<open>
  C10. Reordering the bookings of the table leaves the answer of \<open>GET\<close> the same: every
  row, with its \<open>daysWithBookings\<close> and \<open>usageRate\<close>.
\<close>

theorem GET_bookings_order_irrelevant:
  assumes "mset bs' = mset (bookings_table db)"
  shows "GET tz now (db\<lparr>bookings_table := bs'\<rparr>) = GET tz now db"
proof (rule GET_eq_if_sums_eq)
  show "houses_response (db\<lparr>bookings_table := bs'\<rparr>) = houses_response db" by simp
  show "bookings_failure (db\<lparr>bookings_table := bs'\<rparr>) = bookings_failure db" by simp
  fix h
  let ?w = "getPreviousMonthWindow tz now"
  show "sum_list (map (rowDays tz (monthStart ?w) (monthEnd ?w))
                  (filter (\<lambda>r. house_id r = id_house h) (fetchedRows tz now (db\<lparr>bookings_table := bs'\<rparr>))))
     = sum_list (map (rowDays tz (monthStart ?w) (monthEnd ?w))
                  (filter (\<lambda>r. house_id r = id_house h) (fetchedRows tz now db)))"
  proof (cases "bookings_failure db")
    case None
    then show ?thesis
      by (simp add: fetchedRows_eq) (rule sum_list_filter_mset [OF assms])
  next
    case (Some msg)
    then show ?thesis
      by (simp add: fetchedRows_def select_bookings_def Let_def)
  qed
qed

theorem GET_bookings_order_irrelevant_witness:
  "mset (rev (bookings_table scenarioStore)) = mset (bookings_table scenarioStore)
   \<and> GET utc feb2026 (scenarioStore\<lparr>bookings_table := rev (bookings_table scenarioStore)\<rparr>)
       = GET utc feb2026 scenarioStore"
proof -
  have p: "mset (rev (bookings_table scenarioStore)) = mset (bookings_table scenarioStore)"
    by simp
  from p GET_bookings_order_irrelevant [OF p, of utc feb2026] show ?thesis by blast
qed

text \<open>
  C3. The specified aggregation: a house's \<open>daysWithBookings\<close> is the sum of the overlap
  days of the active bookings with \<open>start_date\<close> before the window's end and \<open>end_date\<close>
  after its start (\<open>spec_daysWithBookings\<close>). The handler takes the two dates of its
  filter from \<open>toISOString()\<close>, the UTC date of a local midnight: east of UTC that is the
  day before. There the query for the window of January 2026 asks for
  \<open>start_date < 2026-01-31\<close>, and an active booking from 2026-01-31 to 2026-02-02 is
  not fetched: the house gets 0 days where the specified sum is 1, and where the same
  request in UTC answers 1. At and west of UTC the handler computes the specified sum
  (\<open>daysWithBookings_at_or_west_of_utc\<close>), and a booking that is not active counts in no
  zone (\<open>GET_ignores_inactive\<close>).
\<close>

theorem GET_east_of_utc_drops_last_day_booking:
  "GET cet2026 feb2026 lastDayStore =
     Json200 ''2026-01'' 31
       [\<lparr>houseId = 1, houseName = ''Bay Ave'', month = ''2026-01'',
         daysWithBookings = 0, totalDays = 31, usageRate = 0\<rparr>]
   \<and> spec_daysWithBookings (civil 2026 1 1) (civil 2026 2 1) (bookings_table lastDayStore) 1 = 1
   \<and> toISODate (monthEnd (getPreviousMonthWindow cet2026 feb2026)) = civil 2026 1 31
   \<and> daysWithBookings (hd (body_rows (GET utc feb2026 lastDayStore))) = 1"
proof -
  have "toISODate (monthEnd (getPreviousMonthWindow cet2026 feb2026)) = civil 2026 1 31"
    by (simp add: window_feb2026_cet toISODate_def msPerDay_def calendar_defs)
  moreover have "daysWithBookings (hd (body_rows (GET utc feb2026 lastDayStore))) = 1"
    by (simp add: GET_lastDay_utc)
  ultimately show ?thesis
    using GET_lastDay_cet spec_days_lastDay by simp
qed

text \<open>
  C5. In a regular zone, a house for which at most one booking is fetched has a
  \<open>usageRate\<close> between 0 and 1. Five active bookings of the same seven nights of January
  2026 for one house give \<open>daysWithBookings = 35 > totalDays = 31\<close> and a \<open>usageRate\<close> above 1.
\<close>

theorem usageRate_unit_interval_single_booking:
  "(zone_regular tz \<and> wallClock now
      \<and> error (houses_response db) = None \<and> bookings_failure db = None
      \<and> i < length (housesOf db)
      \<and> length (filter (\<lambda>b. house_id b = id_house (housesOf db ! i)) (fetchedRows tz now db)) \<le> 1
     \<longrightarrow> 0 \<le> usageRate (body_rows (GET tz now db) ! i)
         \<and> usageRate (body_rows (GET tz now db) ! i) \<le> 1)
   \<and> totalDays (body_rows (GET utc feb2026 overlapStore) ! 0)
       < daysWithBookings (body_rows (GET utc feb2026 overlapStore) ! 0)
   \<and> 1 < usageRate (body_rows (GET utc feb2026 overlapStore) ! 0)"
proof (intro conjI impI)
  assume h: "zone_regular tz \<and> wallClock now
      \<and> error (houses_response db) = None \<and> bookings_failure db = None
      \<and> i < length (housesOf db)
      \<and> length (filter (\<lambda>b. house_id b = id_house (housesOf db ! i)) (fetchedRows tz now db)) \<le> 1"
  let ?w = "getPreviousMonthWindow tz now"
  let ?ws = "civil (prevYear now) (prevMonthIndex now + 1) 1"
  let ?we = "civil (getFullYear now) (getMonth now + 1) 1"
  let ?n = "daysInMonth (prevYear now) (prevMonthIndex now)"
  let ?own = "filter (\<lambda>b. house_id b = id_house (housesOf db ! i)) (fetchedRows tz now db)"
  let ?days = "sum_list (map (rowDays tz (monthStart ?w) (monthEnd ?w)) ?own)"
  from h have reg: "zone_regular tz" and clock: "wallClock now"
    and ok: "error (houses_response db) = None" "bookings_failure db = None"
    and i: "i < length (housesOf db)" and one: "length ?own \<le> 1"
    by simp_all
  have n: "totalDays_win ?w = ?n" by (rule window_totalDays [OF reg clock])
  have span: "?we - ?ws = ?n" by (rule prev_month_span [OF clock])
  have npos: "0 < ?n" using daysInMonth_bounds [of "prevYear now" "prevMonthIndex now"] by simp
  have bound: "rowDays tz (monthStart ?w) (monthEnd ?w) b \<le> ?n" for b
    using countOverlapDays_le_window [OF reg, of ?ws ?we "start_date b" "end_date b"] span npos
    by (simp add: rowDays_def window_monthStart [OF clock] window_monthEnd [OF clock])
  have lo: "0 \<le> ?days"
    by (rule sum_list_nonneg) (auto simp: rowDays_nonneg)
  have hi: "?days \<le> ?n"
  proof (cases ?own)
    case Nil
    then show ?thesis using npos by simp
  next
    case (Cons b bs)
    with one have "bs = []" by simp
    with Cons show ?thesis using bound [of b] by simp
  qed
  have r: "usageRate (body_rows (GET tz now db) ! i) = of_int ?days / of_int ?n"
    using i npos by (simp add: GET_Json200 [OF ok] buildRows_nth getOrZero_aggregate n)
  show "0 \<le> usageRate (body_rows (GET tz now db) ! i)"
    unfolding r using lo npos by simp
  show "usageRate (body_rows (GET tz now db) ! i) \<le> 1"
    unfolding r using hi npos by simp
next
  show "totalDays (body_rows (GET utc feb2026 overlapStore) ! 0)
       < daysWithBookings (body_rows (GET utc feb2026 overlapStore) ! 0)"
    by (simp add: GET_overlap)
  show "1 < usageRate (body_rows (GET utc feb2026 overlapStore) ! 0)"
    by (simp add: GET_overlap)
qed

theorem usageRate_unit_interval_single_booking_witness:
  "zone_regular utc \<and> wallClock feb2026
   \<and> error (houses_response lastDayStore) = None \<and> bookings_failure lastDayStore = None
   \<and> (0::nat) < length (housesOf lastDayStore)
   \<and> length (filter (\<lambda>b. house_id b = id_house (housesOf lastDayStore ! 0))
        (fetchedRows utc feb2026 lastDayStore)) \<le> 1
   \<and> 0 \<le> usageRate (body_rows (GET utc feb2026 lastDayStore) ! 0)
   \<and> usageRate (body_rows (GET utc feb2026 lastDayStore) ! 0) \<le> 1"
proof -
  have h: "zone_regular utc \<and> wallClock feb2026
   \<and> error (houses_response lastDayStore) = None \<and> bookings_failure lastDayStore = None
   \<and> (0::nat) < length (housesOf lastDayStore)
   \<and> length (filter (\<lambda>b. house_id b = id_house (housesOf lastDayStore ! 0))
        (fetchedRows utc feb2026 lastDayStore)) \<le> 1"
    by (simp add: zone_regular_utc wallClock_def feb2026_def lastDayStore_def housesOf_def
        fetchedRows_lastDay_utc [unfolded lastDayStore_def feb2026_def])
  from usageRate_unit_interval_single_booking [of utc feb2026 lastDayStore 0] h
  show ?thesis by blast
qed

section \<open>Claims about the window\<close>

text \<open>
  C6, as amended. In a regular zone, for an invocation in the calendar month \<open>M\<close> (clock
  not before 1970), the window of \<open>getPreviousMonthWindow\<close> runs from the local midnight of
  the first day of \<open>M - 1\<close> to the local midnight of the first day of \<open>M\<close>, and
  \<open>totalDays\<close> is the number of days of \<open>M - 1\<close>. The handler takes no window from its
  caller: whatever the store, a successful answer is the one computed for this window.
\<close>

theorem window_is_previous_month:
  assumes "zone_regular tz" "wallClock now"
  shows "monthStart (getPreviousMonthWindow tz now)
           = localMidnight tz (civil (prevYear now) (prevMonthIndex now + 1) 1)
     \<and> monthEnd (getPreviousMonthWindow tz now)
           = localMidnight tz (civil (getFullYear now) (getMonth now + 1) 1)
     \<and> totalDays_win (getPreviousMonthWindow tz now)
           = daysInMonth (prevYear now) (prevMonthIndex now)
     \<and> (\<forall>db. error (houses_response db) = None \<longrightarrow> bookings_failure db = None \<longrightarrow>
           GET tz now db =
             Json200 (showInt (prevYear now) @ ''-'' @ padStart2 (showInt (prevMonthIndex now + 1)))
               (daysInMonth (prevYear now) (prevMonthIndex now))
               (buildRows (housesOf db)
                 (aggregate tz
                    (localMidnight tz (civil (prevYear now) (prevMonthIndex now + 1) 1))
                    (localMidnight tz (civil (getFullYear now) (getMonth now + 1) 1))
                    (fetchedRows tz now db))
                 (daysInMonth (prevYear now) (prevMonthIndex now))
                 (showInt (prevYear now) @ ''-'' @ padStart2 (showInt (prevMonthIndex now + 1)))))"
proof (intro conjI allI impI)
  show "monthStart (getPreviousMonthWindow tz now)
           = localMidnight tz (civil (prevYear now) (prevMonthIndex now + 1) 1)"
    by (rule window_monthStart [OF assms(2)])
  show "monthEnd (getPreviousMonthWindow tz now)
           = localMidnight tz (civil (getFullYear now) (getMonth now + 1) 1)"
    by (rule window_monthEnd [OF assms(2)])
  show "totalDays_win (getPreviousMonthWindow tz now)
           = daysInMonth (prevYear now) (prevMonthIndex now)"
    by (rule window_totalDays [OF assms])
next
  fix db :: store
  assume ok: "error (houses_response db) = None" "bookings_failure db = None"
  show "GET tz now db =
             Json200 (showInt (prevYear now) @ ''-'' @ padStart2 (showInt (prevMonthIndex now + 1)))
               (daysInMonth (prevYear now) (prevMonthIndex now))
               (buildRows (housesOf db)
                 (aggregate tz
                    (localMidnight tz (civil (prevYear now) (prevMonthIndex now + 1) 1))
                    (localMidnight tz (civil (getFullYear now) (getMonth now + 1) 1))
                    (fetchedRows tz now db))
                 (daysInMonth (prevYear now) (prevMonthIndex now))
                 (showInt (prevYear now) @ ''-'' @ padStart2 (showInt (prevMonthIndex now + 1))))"
    unfolding GET_Json200 [OF ok] window_monthStart [OF assms(2)] window_monthEnd [OF assms(2)]
      window_totalDays [OF assms] window_label [OF assms(2)] ..
qed

text \<open>An invocation in January 2027, in a zone with daylight saving: December 2026.\<close>

theorem window_is_previous_month_witness:
  "zone_regular cet2026 \<and> wallClock jan2027
   \<and> monthStart (getPreviousMonthWindow cet2026 jan2027) = localMidnight cet2026 (civil 2026 12 1)
   \<and> monthEnd (getPreviousMonthWindow cet2026 jan2027) = localMidnight cet2026 (civil 2027 1 1)
   \<and> totalDays_win (getPreviousMonthWindow cet2026 jan2027) = 31
   \<and> error (houses_response scenarioStore) = None \<and> bookings_failure scenarioStore = None
   \<and> body_month (GET cet2026 jan2027 scenarioStore) = ''2026-12''
   \<and> body_totalDays (GET cet2026 jan2027 scenarioStore) = 31"
proof -
  have c: "wallClock jan2027" by (simp add: wallClock_def jan2027_def)
  have p: "prevYear jan2027 = 2026" "prevMonthIndex jan2027 = 11"
    "getFullYear jan2027 = 2027" "getMonth jan2027 = 0"
    by (simp_all add: prevYear_def prevMonthIndex_def jan2027_def)
  have d: "daysInMonth 2026 11 = 31" by (simp add: daysInMonth_def)
  have l: "showInt 2026 @ ''-'' @ padStart2 (showInt 12) = ''2026-12''"
    by (simp add: showInt_def showNat_digit showNat_more padStart2_def)
  have e: "error (houses_response scenarioStore) = None" "bookings_failure scenarioStore = None"
    by (simp_all add: scenarioStore_def)
  note t = window_is_previous_month [OF zone_regular_cet2026 c, unfolded p d, simplified]
  from t e have "GET cet2026 jan2027 scenarioStore =
      Json200 (showInt 2026 @ ''-'' @ padStart2 (showInt 12)) 31
        (buildRows (housesOf scenarioStore)
           (aggregate cet2026 (localMidnight cet2026 (civil 2026 12 1))
              (localMidnight cet2026 (civil 2027 1 1)) (fetchedRows cet2026 jan2027 scenarioStore))
           31 (showInt 2026 @ ''-'' @ padStart2 (showInt 12)))"
    by simp
  then have "body_month (GET cet2026 jan2027 scenarioStore) = ''2026-12''"
    "body_totalDays (GET cet2026 jan2027 scenarioStore) = 31"
    by (simp_all only: response.sel l)
  with t e zone_regular_cet2026 c show ?thesis by simp
qed

text \<open>
  A caller cannot name the window. A request made in February 2026 against a store
  whose only booking lies in November 2025 is answered for January 2026, where the
  house has no day; the handler has no input through which November could be asked for.
\<close>

theorem GET_window_fixed_by_clock_counterexample:
  "GET utc feb2026 novemberStore =
     Json200 ''2026-01'' 31
       [\<lparr>houseId = 1, houseName = ''Bay Ave'', month = ''2026-01'',
         daysWithBookings = 0, totalDays = 31, usageRate = 0\<rparr>]"
proof -
  have e: "error (houses_response novemberStore) = None" "bookings_failure novemberStore = None"
    by (simp_all add: novemberStore_def)
  have h: "housesOf novemberStore = [\<lparr>id_house = 1, name = ''Bay Ave''\<rparr>]"
    by (simp add: housesOf_def novemberStore_def)
  show ?thesis
    unfolding GET_Json200 [OF e] window_feb2026_utc fetchedRows_november h
    by (simp add: buildRows_def aggregate_Nil)
qed

section \<open>The checks of a creation\<close>

lemma nights_regular:
  assumes "zone_regular tz"
  shows "mathRoundDiv (parseLocal tz pe - parseLocal tz ps) 86400000 = pe - ps"
  using round_localMidnight_diff [OF assms, of pe ps] by (simp add: parseLocal_def)

lemma confirmCreateBooking_dates:
  assumes "zone_regular tz" "reachesDateCheck env st"
    "pendingStart st = Some s" "pendingEnd st = Some e"
  shows "confirmCreateBooking tz env st bookings =
     (if e - s \<le> 0 then (ModalError InvalidDateRange, bookings)
      else if e - s > 7 then (ModalError MaxStaySevenNights, bookings)
      else (case insertError env of
              Some msg \<Rightarrow> (ToastError msg, bookings)
            | None \<Rightarrow>
               (Created \<lparr>house_id = the (selectedHouseId st), start_date = s, end_date = e,
                   status = ''active'', created_by = the (user env),
                   guest_count = the (guestCount st),
                   note_col = (if jsTrim (noteInput st) \<noteq> []
                           then Some (jsTrim (noteInput st)) else None)\<rparr>,
                bookings @ [\<lparr>house_id = the (selectedHouseId st), start_date = s, end_date = e,
                   status = ''active'', created_by = the (user env),
                   guest_count = the (guestCount st),
                   note_col = (if jsTrim (noteInput st) \<noteq> []
                           then Some (jsTrim (noteInput st)) else None)\<rparr>])))"
  using assms(2-4)
  by (auto simp: confirmCreateBooking_def reachesDateCheck_def nights_regular [OF assms(1)] Let_def
      split: option.splits)

lemma confirmCreateBooking_Created:
  assumes "zone_regular tz" "fst (confirmCreateBooking tz env st bookings) = Created row"
  shows "1 \<le> end_date row - start_date row \<and> end_date row - start_date row \<le> 7
     \<and> snd (confirmCreateBooking tz env st bookings) = bookings @ [row]
     \<and> pendingStart st = Some (start_date row) \<and> pendingEnd st = Some (end_date row)"
  using assms(2)
  by (auto simp: confirmCreateBooking_def nights_regular [OF assms(1)] Let_def
      split: option.splits if_splits)

lemma confirmCreateBooking_table:
  "snd (confirmCreateBooking tz env st bookings) \<noteq> bookings
     \<Longrightarrow> \<exists>row. fst (confirmCreateBooking tz env st bookings) = Created row"
  by (auto simp: confirmCreateBooking_def Let_def split: option.splits if_splits)

section \<open>Claim about the creation of a booking\<close>

text \<open>
  C8. In a regular zone, \<open>confirmCreateBooking\<close> inserts a row only when its nights
  \<open>end_date - start_date\<close> are between 1 and 7, and the table changes only by such an
  insertion. A selection of at most 0 or more than 7 nights is never inserted; once the
  checks before it have passed (a house is selected, nothing is being saved, a user is
  signed in, the guest count is at least 1) it is answered by the error on the date range,
  respectively on the maximal stay, and a selection of 1 to 7 nights that the store
  accepts is inserted with these dates.
\<close>

theorem confirmCreateBooking_enforces_nights:
  assumes "zone_regular tz"
  shows "(\<forall>row. fst (confirmCreateBooking tz env st bookings) = Created row \<longrightarrow>
            1 \<le> end_date row - start_date row \<and> end_date row - start_date row \<le> 7
            \<and> snd (confirmCreateBooking tz env st bookings) = bookings @ [row])
     \<and> ((\<forall>row. fst (confirmCreateBooking tz env st bookings) \<noteq> Created row) \<longrightarrow>
            snd (confirmCreateBooking tz env st bookings) = bookings)
     \<and> (pendingStart st = Some s \<and> pendingEnd st = Some e \<and> (e - s \<le> 0 \<or> 7 < e - s) \<longrightarrow>
            snd (confirmCreateBooking tz env st bookings) = bookings
            \<and> (\<forall>row. fst (confirmCreateBooking tz env st bookings) \<noteq> Created row))
     \<and> (reachesDateCheck env st \<and> pendingStart st = Some s \<and> pendingEnd st = Some e \<longrightarrow>
            (e - s \<le> 0 \<longrightarrow>
               fst (confirmCreateBooking tz env st bookings) = ModalError InvalidDateRange)
          \<and> (7 < e - s \<longrightarrow>
               fst (confirmCreateBooking tz env st bookings) = ModalError MaxStaySevenNights)
          \<and> (1 \<le> e - s \<and> e - s \<le> 7 \<and> insertError env = None \<longrightarrow>
               (\<exists>row. fst (confirmCreateBooking tz env st bookings) = Created row
                  \<and> start_date row = s \<and> end_date row = e)))"
proof -
  let ?r = "confirmCreateBooking tz env st bookings"
  have created: "1 \<le> end_date row - start_date row \<and> end_date row - start_date row \<le> 7
      \<and> snd ?r = bookings @ [row]" if "fst ?r = Created row" for row
    using confirmCreateBooking_Created [OF assms that] by simp
  have unchanged: "snd ?r = bookings" if "\<forall>row. fst ?r \<noteq> Created row"
    using confirmCreateBooking_table [of tz env st bookings] that by blast
  have never: "\<forall>row. fst ?r \<noteq> Created row"
    if "pendingStart st = Some s \<and> pendingEnd st = Some e \<and> (e - s \<le> 0 \<or> 7 < e - s)"
  proof (intro allI notI)
    fix row
    assume c: "fst ?r = Created row"
    from confirmCreateBooking_Created [OF assms c] that
    show False by auto
  qed
  have checked: "(e - s \<le> 0 \<longrightarrow> fst ?r = ModalError InvalidDateRange)
          \<and> (7 < e - s \<longrightarrow> fst ?r = ModalError MaxStaySevenNights)
          \<and> (1 \<le> e - s \<and> e - s \<le> 7 \<and> insertError env = None \<longrightarrow>
               (\<exists>row. fst ?r = Created row \<and> start_date row = s \<and> end_date row = e))"
    if "reachesDateCheck env st \<and> pendingStart st = Some s \<and> pendingEnd st = Some e"
    using that by (auto simp: confirmCreateBooking_dates [OF assms])
  from created unchanged never checked show ?thesis by blast
qed

text \<open>
  In a zone whose clocks go forward on 2026-03-29: eight nights from 2026-03-27 are
  refused and the table stays empty; four nights are inserted.
\<close>

theorem confirmCreateBooking_enforces_nights_witness:
  "zone_regular cet2026
   \<and> reachesDateCheck signedIn (formFor (civil 2026 3 27) (civil 2026 4 4))
   \<and> pendingStart (formFor (civil 2026 3 27) (civil 2026 4 4)) = Some (civil 2026 3 27)
   \<and> pendingEnd (formFor (civil 2026 3 27) (civil 2026 4 4)) = Some (civil 2026 4 4)
   \<and> 7 < civil 2026 4 4 - civil 2026 3 27
   \<and> fst (confirmCreateBooking cet2026 signedIn (formFor (civil 2026 3 27) (civil 2026 4 4)) [])
       = ModalError MaxStaySevenNights
   \<and> snd (confirmCreateBooking cet2026 signedIn (formFor (civil 2026 3 27) (civil 2026 4 4)) [])
       = []
   \<and> reachesDateCheck signedIn (formFor (civil 2026 3 27) (civil 2026 3 31))
   \<and> insertError signedIn = None
   \<and> (\<exists>row. fst (confirmCreateBooking cet2026 signedIn
                    (formFor (civil 2026 3 27) (civil 2026 3 31)) []) = Created row
         \<and> start_date row = civil 2026 3 27 \<and> end_date row = civil 2026 3 31)"
proof -
  let ?a = "civil 2026 3 27" and ?b = "civil 2026 4 4" and ?c = "civil 2026 3 31"
  have f: "reachesDateCheck signedIn (formFor ?a ?b)" "pendingStart (formFor ?a ?b) = Some ?a"
    "pendingEnd (formFor ?a ?b) = Some ?b"
    "reachesDateCheck signedIn (formFor ?a ?c)" "pendingStart (formFor ?a ?c) = Some ?a"
    "pendingEnd (formFor ?a ?c) = Some ?c" "insertError signedIn = None"
    by (simp_all add: reachesDateCheck_def signedIn_def formFor_def)
  have n: "7 < ?b - ?a" "1 \<le> ?c - ?a" "?c - ?a \<le> 7"
    by (simp_all add: calendar_defs)
  note long = confirmCreateBooking_enforces_nights
      [OF zone_regular_cet2026, of signedIn "formFor ?a ?b" "[]" ?a ?b]
  note short = confirmCreateBooking_enforces_nights
      [OF zone_regular_cet2026, of signedIn "formFor ?a ?c" "[]" ?a ?c]
  from long f n have 1: "fst (confirmCreateBooking cet2026 signedIn (formFor ?a ?b) [])
       = ModalError MaxStaySevenNights"
    by blast
  from long f n have 2: "snd (confirmCreateBooking cet2026 signedIn (formFor ?a ?b) []) = []"
    by blast
  from short f n have 3: "\<exists>row. fst (confirmCreateBooking cet2026 signedIn (formFor ?a ?c) [])
       = Created row \<and> start_date row = ?a \<and> end_date row = ?c"
    by blast
  from zone_regular_cet2026 f n 1 2 3 show ?thesis by blast
qed

end
